theory Spec2Isabelle
  imports Main "HOL-Library.Word"
begin

unbundle bit_operations_syntax

section \<open>Data model of protocol/validation/block.go\<close>

text \<open>
  Go's \<open>uint64\<close> is a 64-bit word: \<open>+\<close> wraps around and \<open><\<close>, \<open>\<le>\<close> compare the
  unsigned values. A \<open>[]byte\<close> is a list of 8-bit words, a Go \<open>string\<close> a list of
  characters (bytes).
\<close>

type_synonym u64 = "64 word"
type_synonym byte = "8 word"

text \<open>\<open>bc.Hash\<close> is a struct of four \<open>uint64\<close>s, compared by value.\<close>

datatype Hash = Hash u64 u64 u64 u64

text \<open>
  The proposer proof of a block. \<open>b.GetProof()\<close>, \<open>GetControlProgram()\<close> and
  \<open>GetSign()\<close> are nil-safe getters: a missing proof reads as the empty control program
  and the empty signature. \<open>string(b.GetProof().GetControlProgram())\<close> reinterprets
  the bytes as a string, so the control program is kept as a string here.
\<close>

record Proof =
  ControlProgram :: string
  Sign :: "byte list"

text \<open>
  A transaction, as far as this file reads it: its identifier, the result identifiers of
  its header (\<open>tx.TxHeader.ResultIds\<close>) and its entry table (\<open>tx.Entries\<close>). Of an
  output entry only \<open>Source.Value.Amount\<close> is read.
\<close>

datatype Entry = OutputEntry u64 | OtherEntry

record Tx =
  ID :: Hash
  ResultIds :: "Hash list"
  Entries :: "(Hash \<times> Entry) list"

text \<open>
  \<open>GasState\<close>, the outcome of the per-transaction validator. \<open>BTMValue\<close> is a
  \<open>uint64\<close>. \<open>GasUsed\<close> is converted with \<open>uint64(gasStatus.GasUsed)\<close> before it
  is added; the conversion keeps the 64 bits, so the field holds that bit pattern.
\<close>

record GasState =
  BTMValue :: u64
  GasUsed :: u64
  GasValid :: bool

text \<open>
  \<open>bc.Block\<close>: the header fields this file reads, the transactions and the attached
  transaction status (the \<open>VerifyStatus\<close> flags of \<open>b.TransactionStatus\<close>). Header
  fields of pointer type are modelled as always set, as in section 3 of the specification.
\<close>

record Block =
  Version :: u64
  Height :: u64
  PreviousBlockId :: Hash
  Timestamp :: u64
  TransactionsRoot :: Hash
  TransactionStatusHash :: Hash
  Bits :: u64
  GetProof :: Proof
  Transactions :: "Tx list"
  TransactionStatus :: "bool list"

text \<open>\<open>state.BlockNode\<close>, the accepted parent.\<close>

record BlockNode =
  NodeVersion :: u64
  NodeHeight :: u64
  NodeHash :: Hash

subsection \<open>Errors\<close>

datatype merkle_detail = TransactionIdMerkleRoot | TransactionStatusMerkleRoot

datatype coinbase_detail = BlockIsEmpty | DismatchOutputAmount

datatype wrap_context =
    ValidateOfTransaction nat nat
  | ComputingTransactionIdMerkleRoot
  | ComputingTransactionStatusMerkleRoot

text \<open>
  The error values this file can return. The eight sentinels of the \<open>var\<close> block keep
  their names, with the values that \<open>errors.WithDetailf\<close> attaches as arguments;
  \<open>errWorkProof\<close> is declared and never returned. \<open>'e\<close> is the type of the errors
  of the collaborators (\<open>ValidateTx\<close>, \<open>TxMerkleRoot\<close>, \<open>TxStatusMerkleRoot\<close>);
  \<open>Wrapped e c\<close> is such an error under \<open>errors.Wrap\<close>/\<open>errors.Wrapf\<close>.
  \<open>ErrLength\<close> and \<open>InvalidByteError\<close> are the two errors of \<open>encoding/hex\<close>.
\<close>

datatype 'e error =
    errBadTimestamp
  | errBadBits
  | errMismatchedBlock Hash Hash
  | errMismatchedMerkleRoot merkle_detail
  | errMisorderedBlockHeight u64 u64
  | errOverBlockLimit
  | errWorkProof
  | errVersionRegression u64 u64
  | ErrWrongCoinbaseTransaction coinbase_detail
  | ErrLength
  | InvalidByteError char
  | VerificationSignatureFailed
  | SetStatusOneByOne
  | ErrMissingEntry Hash
  | ErrEntryType Hash
  | Wrapped 'e wrap_context

text \<open>
  What a Go function of result type \<open>error\<close> does: it returns \<open>nil\<close>
  (\<open>Return None\<close>), returns an error, or panics.
\<close>

datatype 'e go_result = Return "'e error option" | Panic

subsection \<open>The collaborators\<close>

text \<open>
  Everything \<open>block.go\<close> calls that lives outside it is a parameter: the clock reading
  \<open>uint64(time.Now().Unix())\<close>, the constants of package \<open>consensus\<close>, the two
  methods of the parent node, the per-transaction validator (which receives the block in
  its current state), the two merkle-root functions, the text encoding of the
  \<open>types.Block\<close> (whose error is discarded by \<open>msg, _ := block.MarshalText()\<close>)
  and the signature check \<open>xpub.Verify(msg, sign)\<close>.
\<close>

record ('e, 'tb) env =
  Now :: u64
  MaxTimeOffsetSeconds :: u64
  MaxBlockGas :: u64
  BlockSubsidy :: "u64 \<Rightarrow> u64"
  CalcNextBits :: "BlockNode \<Rightarrow> u64"
  CalcPastMedianTime :: "BlockNode \<Rightarrow> u64"
  ValidateTx :: "Tx \<Rightarrow> Block \<Rightarrow> GasState \<times> 'e option"
  TxMerkleRoot :: "Tx list \<Rightarrow> 'e + Hash"
  TxStatusMerkleRoot :: "bool list \<Rightarrow> 'e + Hash"
  MarshalText :: "'tb \<Rightarrow> byte list"
  Verify :: "byte list \<Rightarrow> byte list \<Rightarrow> byte list \<Rightarrow> bool"

text \<open>
  The calls to collaborators, in the order they are made. The log is the third component
  of what \<open>ValidateBlock\<close> yields below; it has no counterpart in the Go return value
  and only records which steps were executed: the signature check with the key it was
  given, each call of the validator with the index and the status the block carried at
  that moment, the coinbase check with the expected amount, and the two merkle roots.
\<close>

datatype event =
    EvVerify "byte list"
  | EvValidateTx nat "bool list"
  | EvCheckCoinbase u64
  | EvTxMerkleRoot
  | EvTxStatusMerkleRoot "bool list"

section \<open>Header validation\<close>

text \<open>\<open>checkBlockTime\<close>, lines 26-35.\<close>

definition checkBlockTime :: "('e, 'tb) env \<Rightarrow> Block \<Rightarrow> BlockNode \<Rightarrow> 'e error option" where
  "checkBlockTime env b parent =
     (if Timestamp b > Now env + MaxTimeOffsetSeconds env then Some errBadTimestamp
      else if Timestamp b \<le> CalcPastMedianTime env parent then Some errBadTimestamp
      else None)"

text \<open>\<open>ValidateBlockHeader\<close>, lines 55-72.\<close>

definition ValidateBlockHeader :: "('e, 'tb) env \<Rightarrow> Block \<Rightarrow> BlockNode \<Rightarrow> 'e error option" where
  "ValidateBlockHeader env b parent =
     (if Version b < NodeVersion parent
        then Some (errVersionRegression (NodeVersion parent) (Version b))
      else if Height b \<noteq> NodeHeight parent + 1
        then Some (errMisorderedBlockHeight (NodeHeight parent) (Height b))
      else if Bits b \<noteq> CalcNextBits env parent
        then Some errBadBits
      else if NodeHash parent \<noteq> PreviousBlockId b
        then Some (errMismatchedBlock (NodeHash parent) (PreviousBlockId b))
      else checkBlockTime env b parent)"

section \<open>Proposer authentication\<close>

text \<open>
  \<open>encoding/hex\<close>: the value of a hexadecimal digit (\<open>0-9\<close>, \<open>a-f\<close>, \<open>A-F\<close>), and
  \<open>hex.DecodeString\<close>. The decoder reads two characters per byte; an invalid character
  is reported before an odd length, and the empty string decodes to no bytes without an
  error. (Go returns the bytes decoded so far together with the error; the caller drops
  them.)
\<close>

definition fromHexChar :: "char \<Rightarrow> byte option" where
  "fromHexChar c =
     (let n = (of_char c :: nat) in
      if 48 \<le> n \<and> n \<le> 57 then Some (of_nat (n - 48))
      else if 97 \<le> n \<and> n \<le> 102 then Some (of_nat (n - 87))
      else if 65 \<le> n \<and> n \<le> 70 then Some (of_nat (n - 55))
      else None)"

fun DecodeString :: "string \<Rightarrow> 'e error + byte list" where
  "DecodeString [] = Inr []"
| "DecodeString [p] =
     (case fromHexChar p of None \<Rightarrow> Inl (InvalidByteError p) | Some a \<Rightarrow> Inl ErrLength)"
| "DecodeString (p # q # rest) =
     (case fromHexChar p of
        None \<Rightarrow> Inl (InvalidByteError p)
      | Some a \<Rightarrow>
          (case fromHexChar q of
             None \<Rightarrow> Inl (InvalidByteError q)
           | Some c \<Rightarrow>
               (case DecodeString rest of
                  Inl err \<Rightarrow> Inl err
                | Inr bs \<Rightarrow> Inr ((push_bit 4 a OR c) # bs))))"

text \<open>
  \<open>authoritys[controlProgram]\<close>: indexing a Go map with a key it does not hold yields
  the zero value of the element type, here the empty string.
\<close>

definition mapIndex :: "(string \<rightharpoonup> string) \<Rightarrow> string \<Rightarrow> string" where
  "mapIndex m k = (case m k of None \<Rightarrow> [] | Some v \<Rightarrow> v)"

text \<open>
  \<open>var xpub chainkd.XPub; copy(xpub[:], tmp[:])\<close>: a 64-byte array, zero at first, into
  which \<open>copy\<close> writes as many bytes of \<open>tmp\<close> as fit.
\<close>

definition copyXPub :: "byte list \<Rightarrow> byte list" where
  "copyXPub tmp = take 64 tmp @ replicate (64 - length tmp) 0"

text \<open>
  Lines 80-92 of \<open>ValidateBlock\<close>: the result is the error returned there (\<open>None\<close> when
  the block passes) and the log of the signature check, if it was reached.
\<close>

definition authenticate ::
  "('e, 'tb) env \<Rightarrow> Block \<Rightarrow> 'tb \<Rightarrow> (string \<rightharpoonup> string) \<Rightarrow> 'e error option \<times> event list" where
  "authenticate env b block authoritys =
     (let controlProgram = ControlProgram (GetProof b) in
      case DecodeString (mapIndex authoritys controlProgram) of
        Inl err \<Rightarrow> (Some err, [])
      | Inr tmp \<Rightarrow>
          (let xpub = copyXPub tmp;
               msg = MarshalText env block;
               sign = Sign (GetProof b)
           in if \<not> Verify env xpub msg sign
              then (Some VerificationSignatureFailed, [EvVerify xpub])
              else (None, [EvVerify xpub])))"

section \<open>Transactions, coinbase and merkle roots\<close>

text \<open>
  Modelled from the spec: \<open>bc.NewTransactionStatus\<close> and \<open>TransactionStatus.SetStatus\<close>
  of package \<open>bc\<close>, which are not in this file. The status is the ordered sequence of
  boolean flags of section 3, created fresh (empty) and written one index at a time: index
  \<open>i\<close> is appended when it is the next one, overwritten when it exists, and refused
  when it would leave a gap.
\<close>

definition NewTransactionStatus :: "bool list" where
  "NewTransactionStatus = []"

definition SetStatus :: "bool list \<Rightarrow> nat \<Rightarrow> bool \<Rightarrow> 'e error + bool list" where
  "SetStatus ts i v =
     (if i > length ts then Inl SetStatusOneByOne
      else if i = length ts then Inr (ts @ [v])
      else Inr (ts[i := v]))"

text \<open>
  \<open>errors.Wrap\<close> and \<open>errors.Wrapf\<close> of the repository's \<open>errors\<close> package (not in
  this file) attach a message to an error. Like \<open>Wrap\<close> and \<open>Wrapf\<close> of
  \<open>pkg/errors\<close>, they return \<open>nil\<close> when the error they are given is \<open>nil\<close>.
\<close>

definition Wrap :: "'e option \<Rightarrow> wrap_context \<Rightarrow> 'e error option" where
  "Wrap err c = (case err of None \<Rightarrow> None | Some e \<Rightarrow> Some (Wrapped e c))"

text \<open>
  \<open>tx.Output(id)\<close>: the entry under \<open>id\<close> must exist and be an output; the model
  yields its amount.
\<close>

definition Output :: "Tx \<Rightarrow> Hash \<Rightarrow> 'e error + u64" where
  "Output tx id' =
     (case map_of (Entries tx) id' of
        None \<Rightarrow> Inl (ErrMissingEntry id')
      | Some (OutputEntry amount) \<Rightarrow> Inr amount
      | Some OtherEntry \<Rightarrow> Inl (ErrEntryType id'))"

text \<open>
  \<open>checkCoinbaseAmount\<close>, lines 37-52. \<open>tx.TxHeader.ResultIds[0]\<close> panics when the
  first transaction has no result.
\<close>

definition checkCoinbaseAmount :: "Block \<Rightarrow> u64 \<Rightarrow> 'e go_result" where
  "checkCoinbaseAmount b amount =
     (case Transactions b of
        [] \<Rightarrow> Return (Some (ErrWrongCoinbaseTransaction BlockIsEmpty))
      | tx # rest \<Rightarrow>
          (case ResultIds tx of
             [] \<Rightarrow> Panic
           | r # rs \<Rightarrow>
               (case Output tx r of
                  Inl err \<Rightarrow> Return (Some err)
                | Inr a \<Rightarrow>
                    if a \<noteq> amount
                    then Return (Some (ErrWrongCoinbaseTransaction DismatchOutputAmount))
                    else Return None)))"

text \<open>
  The loop of lines 98-111 over the transactions still to be validated, at index \<open>i\<close>
  of \<open>n\<close>, with the running \<open>blockGasSum\<close> and \<open>coinbaseAmount\<close>. It either runs to
  the end and hands on the coinbase amount, or returns from \<open>ValidateBlock\<close>. The block
  is passed along because \<open>SetStatus\<close> writes to it and \<open>ValidateTx\<close> receives it.
\<close>

datatype 'e loop_result = LoopDone u64 | LoopReturn "'e error option"

fun txloop ::
  "('e, 'tb) env \<Rightarrow> nat \<Rightarrow> nat \<Rightarrow> Tx list \<Rightarrow> Block \<Rightarrow> u64 \<Rightarrow> u64 \<Rightarrow>
     'e loop_result \<times> Block \<times> event list" where
  "txloop env n i [] b blockGasSum coinbaseAmount = (LoopDone coinbaseAmount, b, [])"
| "txloop env n i (tx # txs) b blockGasSum coinbaseAmount =
     (case ValidateTx env tx b of
        (gasStatus, err) \<Rightarrow>
          if \<not> GasValid gasStatus
          then (LoopReturn (Wrap err (ValidateOfTransaction i n)), b,
                [EvValidateTx i (TransactionStatus b)])
          else
            (case SetStatus (TransactionStatus b) i (err \<noteq> None) of
               Inl e \<Rightarrow> (LoopReturn (Some e), b, [EvValidateTx i (TransactionStatus b)])
             | Inr ts \<Rightarrow>
                 if blockGasSum + GasUsed gasStatus > MaxBlockGas env
                 then (LoopReturn (Some errOverBlockLimit), b\<lparr>TransactionStatus := ts\<rparr>,
                       [EvValidateTx i (TransactionStatus b)])
                 else
                   (case txloop env n (i + 1) txs (b\<lparr>TransactionStatus := ts\<rparr>)
                           (blockGasSum + GasUsed gasStatus)
                           (coinbaseAmount + BTMValue gasStatus) of
                      (r, b', evs) \<Rightarrow> (r, b', EvValidateTx i (TransactionStatus b) # evs))))"

text \<open>Lines 117-132: the two merkle roots, the transaction identifiers first.\<close>

definition merkleChecks :: "('e, 'tb) env \<Rightarrow> Block \<Rightarrow> 'e error option \<times> event list" where
  "merkleChecks env b =
     (case TxMerkleRoot env (Transactions b) of
        Inl err \<Rightarrow> (Wrap (Some err) ComputingTransactionIdMerkleRoot, [EvTxMerkleRoot])
      | Inr txMerkleRoot \<Rightarrow>
          if txMerkleRoot \<noteq> TransactionsRoot b
          then (Some (errMismatchedMerkleRoot TransactionIdMerkleRoot), [EvTxMerkleRoot])
          else
            (case TxStatusMerkleRoot env (TransactionStatus b) of
               Inl err \<Rightarrow>
                 (Wrap (Some err) ComputingTransactionStatusMerkleRoot,
                  [EvTxMerkleRoot, EvTxStatusMerkleRoot (TransactionStatus b)])
             | Inr txStatusHash \<Rightarrow>
                 if txStatusHash \<noteq> TransactionStatusHash b
                 then (Some (errMismatchedMerkleRoot TransactionStatusMerkleRoot),
                       [EvTxMerkleRoot, EvTxStatusMerkleRoot (TransactionStatus b)])
                 else (None, [EvTxMerkleRoot, EvTxStatusMerkleRoot (TransactionStatus b)])))"

text \<open>
  \<open>ValidateBlock\<close>, lines 75-133. It yields what the Go function returns, the block as
  the call leaves it (the only field written is \<open>TransactionStatus\<close>, line 96 and
  \<open>SetStatus\<close>), and the log of collaborator calls. \<open>block\<close> is the \<open>types.Block\<close>
  whose text encoding is signed; \<open>position\<close> is the last parameter of the Go function.
\<close>

definition ValidateBlock ::
  "('e, 'tb) env \<Rightarrow> Block \<Rightarrow> BlockNode \<Rightarrow> 'tb \<Rightarrow> (string \<rightharpoonup> string) \<Rightarrow> u64 \<Rightarrow>
     'e go_result \<times> Block \<times> event list" where
  "ValidateBlock env b parent block authoritys position =
     (case ValidateBlockHeader env b parent of
        Some err \<Rightarrow> (Return (Some err), b, [])
      | None \<Rightarrow>
          (case authenticate env b block authoritys of
             (Some err, ev1) \<Rightarrow> (Return (Some err), b, ev1)
           | (None, ev1) \<Rightarrow>
               (case txloop env (length (Transactions b)) 0 (Transactions b)
                       (b\<lparr>TransactionStatus := NewTransactionStatus\<rparr>)
                       0 (BlockSubsidy env (Height b)) of
                  (LoopReturn r, b1, ev2) \<Rightarrow> (Return r, b1, ev1 @ ev2)
                | (LoopDone coinbaseAmount, b1, ev2) \<Rightarrow>
                    (case checkCoinbaseAmount b1 coinbaseAmount of
                       Panic \<Rightarrow> (Panic, b1, ev1 @ ev2 @ [EvCheckCoinbase coinbaseAmount])
                     | Return (Some err) \<Rightarrow>
                         (Return (Some err), b1, ev1 @ ev2 @ [EvCheckCoinbase coinbaseAmount])
                     | Return None \<Rightarrow>
                         (case merkleChecks env b1 of
                            (r, ev3) \<Rightarrow>
                              (Return r, b1,
                               ev1 @ ev2 @ [EvCheckCoinbase coinbaseAmount] @ ev3))))))"

section \<open>Vocabulary for the statements\<close>

text \<open>
  The answers of the validator in the order the loop asks for them: the call for the
  transaction at index \<open>j\<close> sees the block with the status flags of the indices before
  \<open>j\<close>, each flag telling whether that answer carried an error.
\<close>

fun outcomes :: "('e, 'tb) env \<Rightarrow> Tx list \<Rightarrow> Block \<Rightarrow> (GasState \<times> 'e option) list" where
  "outcomes env [] b = []"
| "outcomes env (tx # txs) b =
     ValidateTx env tx b #
     outcomes env txs
       (b\<lparr>TransactionStatus := TransactionStatus b @ [snd (ValidateTx env tx b) \<noteq> None]\<rparr>)"

definition statusOf :: "(GasState \<times> 'e option) list \<Rightarrow> bool list" where
  "statusOf os = map (\<lambda>r. snd r \<noteq> None) os"

text \<open>The value of \<open>blockGasSum\<close> after the first \<open>k\<close> answers, in \<open>uint64\<close> arithmetic.\<close>

definition gasAfter :: "(GasState \<times> 'e option) list \<Rightarrow> nat \<Rightarrow> u64" where
  "gasAfter os k = sum_list (map (\<lambda>r. GasUsed (fst r)) (take k os))"

text \<open>The fees of all answers, in \<open>uint64\<close> arithmetic.\<close>

definition feesOf :: "(GasState \<times> 'e option) list \<Rightarrow> u64" where
  "feesOf os = sum_list (map (\<lambda>r. BTMValue (fst r)) os)"

text \<open>
  The log of \<open>m\<close> consecutive validator calls starting at index \<open>i\<close> on a block whose
  status is \<open>ts\<close>, when the calls set the flags \<open>ss\<close>.
\<close>

definition validatorCalls :: "nat \<Rightarrow> bool list \<Rightarrow> bool list \<Rightarrow> nat \<Rightarrow> event list" where
  "validatorCalls i ts ss m = map (\<lambda>j. EvValidateTx (i + j) (ts @ take j ss)) [0..<m]"

section \<open>A small chain for concrete runs\<close>

text \<open>
  A toy instance of the collaborators. The signature primitive accepts exactly the
  registered key with the message as its own signature; the validator reads its answer
  off the transaction identifier \<open>Hash g f v e\<close>: gas \<open>g\<close>, fee \<open>f\<close>, gas-valid iff
  \<open>v = 0\<close>, and an error iff \<open>e \<noteq> 0\<close>; the merkle roots count their leaves.
\<close>

definition exKey :: "byte list" where
  "exKey = [161, 178] @ replicate 62 0"

definition exValidateTx :: "Tx \<Rightarrow> Block \<Rightarrow> GasState \<times> nat option" where
  "exValidateTx tx blk =
     (case ID tx of
        Hash g f v e \<Rightarrow>
          (\<lparr>BTMValue = f, GasUsed = g, GasValid = (v = 0)\<rparr>,
           if e = 0 then None else Some (unat e)))"

definition exEnv :: "(nat, byte list) env" where
  "exEnv =
     \<lparr>Now = 1000, MaxTimeOffsetSeconds = 3600, MaxBlockGas = 100,
      BlockSubsidy = (\<lambda>h. 50),
      CalcNextBits = (\<lambda>p. 7),
      CalcPastMedianTime = (\<lambda>p. 900),
      ValidateTx = exValidateTx,
      TxMerkleRoot = (\<lambda>txs. Inr (Hash (of_nat (length txs)) 0 0 0)),
      TxStatusMerkleRoot = (\<lambda>ss. Inr (Hash (of_nat (length ss)) 1 0 0)),
      MarshalText = (\<lambda>t. t),
      Verify = (\<lambda>xpub msg sign. xpub = exKey \<and> sign = msg)\<rparr>"

definition exParent :: BlockNode where
  "exParent = \<lparr>NodeVersion = 1, NodeHeight = 100, NodeHash = Hash 9 9 9 9\<rparr>"

definition exAuthoritys :: "string \<rightharpoonup> string" where
  "exAuthoritys = [''miner'' \<mapsto> ''a1b2'']"

text \<open>A coinbase transaction paying \<open>a\<close>, and a transaction with a chosen validator answer.\<close>

definition exCoinbase :: "u64 \<Rightarrow> Tx" where
  "exCoinbase a =
     \<lparr>ID = Hash 0 0 0 0, ResultIds = [Hash 5 0 0 0], Entries = [(Hash 5 0 0 0, OutputEntry a)]\<rparr>"

definition exTx :: "u64 \<Rightarrow> u64 \<Rightarrow> u64 \<Rightarrow> u64 \<Rightarrow> Tx" where
  "exTx g f v e = \<lparr>ID = Hash g f v e, ResultIds = [], Entries = []\<rparr>"

text \<open>
  A block at height 101 on \<open>exParent\<close>, signed by \<open>miner\<close>, whose header commits to the
  toy merkle roots of its transactions; it arrives carrying a stale status.
\<close>

definition exBlock :: "Tx list \<Rightarrow> Block" where
  "exBlock txs =
     \<lparr>Version = 1, Height = 101, PreviousBlockId = Hash 9 9 9 9, Timestamp = 1000,
      TransactionsRoot = Hash (of_nat (length txs)) 0 0 0,
      TransactionStatusHash = Hash (of_nat (length txs)) 1 0 0,
      Bits = 7,
      GetProof = \<lparr>ControlProgram = ''miner'', Sign = [1, 2, 3]\<rparr>,
      Transactions = txs,
      TransactionStatus = [True, True, True, True, True]\<rparr>"

definition exText :: "byte list" where
  "exText = [1, 2, 3]"

section \<open>Header validation: the order of the checks and the timestamp window\<close>

lemma checkBlockTime_result:
  "checkBlockTime env b parent = None \<or> checkBlockTime env b parent = Some errBadTimestamp"
  by (simp add: checkBlockTime_def)

lemma checkBlockTime_None:
  "checkBlockTime env b parent = None \<longleftrightarrow>
     Timestamp b \<le> Now env + MaxTimeOffsetSeconds env \<and> CalcPastMedianTime env parent < Timestamp b"
  by (auto simp: checkBlockTime_def not_less not_le)

lemma u64_le_add_unat:
  fixes t n m :: u64
  assumes "unat n + unat m < 2 ^ 64"
  shows "t \<le> n + m \<longleftrightarrow> unat t \<le> unat n + unat m"
proof -
  have "unat (n + m) = unat n + unat m"
    using assms by (simp add: unat_add_lem [THEN iffD1])
  then show ?thesis by (simp add: word_le_nat_alt)
qed

text \<open>
  C5. \<open>ValidateBlockHeader\<close> compares the version, then the height, then the difficulty
  bits, then the previous block identifier: the first of these comparisons that fails
  decides the error, whatever the later ones would say, and each has an error of its own
  (version regression, misordered height, bad bits, mismatched block). When all four hold
  the result is that of the timestamp check.
\<close>

theorem ValidateBlockHeader_checks_in_order:
  "(Version b < NodeVersion parent \<longrightarrow>
      ValidateBlockHeader env b parent =
        Some (errVersionRegression (NodeVersion parent) (Version b)))
   \<and> (NodeVersion parent \<le> Version b \<and> Height b \<noteq> NodeHeight parent + 1 \<longrightarrow>
      ValidateBlockHeader env b parent =
        Some (errMisorderedBlockHeight (NodeHeight parent) (Height b)))
   \<and> (NodeVersion parent \<le> Version b \<and> Height b = NodeHeight parent + 1 \<and>
      Bits b \<noteq> CalcNextBits env parent \<longrightarrow>
      ValidateBlockHeader env b parent = Some errBadBits)
   \<and> (NodeVersion parent \<le> Version b \<and> Height b = NodeHeight parent + 1 \<and>
      Bits b = CalcNextBits env parent \<and> PreviousBlockId b \<noteq> NodeHash parent \<longrightarrow>
      ValidateBlockHeader env b parent =
        Some (errMismatchedBlock (NodeHash parent) (PreviousBlockId b)))
   \<and> (NodeVersion parent \<le> Version b \<and> Height b = NodeHeight parent + 1 \<and>
      Bits b = CalcNextBits env parent \<and> PreviousBlockId b = NodeHash parent \<longrightarrow>
      ValidateBlockHeader env b parent = checkBlockTime env b parent)"
  by (auto simp: ValidateBlockHeader_def not_less)

theorem ValidateBlockHeader_checks_in_order_witness:
  "ValidateBlockHeader exEnv ((exBlock [])\<lparr>Version := 0, Height := 7, Bits := 8\<rparr>) exParent =
     (Some (errVersionRegression 1 0) :: nat error option)
   \<and> ValidateBlockHeader exEnv
       ((exBlock [])\<lparr>Height := 7, Bits := 8, PreviousBlockId := Hash 0 0 0 0\<rparr>) exParent =
     (Some (errMisorderedBlockHeight 100 7) :: nat error option)
   \<and> ValidateBlockHeader exEnv
       ((exBlock [])\<lparr>Bits := 8, PreviousBlockId := Hash 0 0 0 0\<rparr>) exParent =
     (Some errBadBits :: nat error option)
   \<and> ValidateBlockHeader exEnv
       ((exBlock [])\<lparr>PreviousBlockId := Hash 0 0 0 0, Timestamp := 0\<rparr>) exParent =
     (Some (errMismatchedBlock (Hash 9 9 9 9) (Hash 0 0 0 0)) :: nat error option)
   \<and> ValidateBlockHeader exEnv (exBlock []) exParent =
     (checkBlockTime exEnv (exBlock []) exParent :: nat error option)"
  using
    ValidateBlockHeader_checks_in_order
      [of "(exBlock [])\<lparr>Version := 0, Height := 7, Bits := 8\<rparr>" exParent exEnv]
    ValidateBlockHeader_checks_in_order
      [of "(exBlock [])\<lparr>Height := 7, Bits := 8, PreviousBlockId := Hash 0 0 0 0\<rparr>" exParent exEnv]
    ValidateBlockHeader_checks_in_order
      [of "(exBlock [])\<lparr>Bits := 8, PreviousBlockId := Hash 0 0 0 0\<rparr>" exParent exEnv]
    ValidateBlockHeader_checks_in_order
      [of "(exBlock [])\<lparr>PreviousBlockId := Hash 0 0 0 0, Timestamp := 0\<rparr>" exParent exEnv]
    ValidateBlockHeader_checks_in_order [of "exBlock []" exParent exEnv]
  by (simp add: exBlock_def exParent_def exEnv_def)

text \<open>
  C6. The timestamp is accepted exactly when it is at most the clock reading plus
  \<open>MaxTimeOffsetSeconds\<close> (a \<open>uint64\<close> sum) and greater than the parent's past median
  time. \<open>checkBlockTime\<close> has one error for both bounds, \<open>errBadTimestamp\<close>, and
  \<open>ValidateBlockHeader\<close> returns it exactly when the four linkage checks pass and one
  of the bounds is violated. As long as the sum does not exceed \<open>2^64 - 1\<close> the upper
  bound is the one on the unbounded values.
\<close>

theorem checkBlockTime_window:
  "(checkBlockTime env b parent = None \<longleftrightarrow>
      Timestamp b \<le> Now env + MaxTimeOffsetSeconds env \<and>
      CalcPastMedianTime env parent < Timestamp b)
   \<and> (checkBlockTime env b parent \<noteq> None \<longleftrightarrow>
      checkBlockTime env b parent = Some errBadTimestamp)
   \<and> (ValidateBlockHeader env b parent = None \<longleftrightarrow>
      (NodeVersion parent \<le> Version b \<and> Height b = NodeHeight parent + 1 \<and>
       Bits b = CalcNextBits env parent \<and> PreviousBlockId b = NodeHash parent) \<and>
      (Timestamp b \<le> Now env + MaxTimeOffsetSeconds env \<and>
       CalcPastMedianTime env parent < Timestamp b))
   \<and> (ValidateBlockHeader env b parent = Some errBadTimestamp \<longleftrightarrow>
      (NodeVersion parent \<le> Version b \<and> Height b = NodeHeight parent + 1 \<and>
       Bits b = CalcNextBits env parent \<and> PreviousBlockId b = NodeHash parent) \<and>
      \<not> (Timestamp b \<le> Now env + MaxTimeOffsetSeconds env \<and>
         CalcPastMedianTime env parent < Timestamp b))
   \<and> (unat (Now env) + unat (MaxTimeOffsetSeconds env) < 2 ^ 64 \<longrightarrow>
      (Timestamp b \<le> Now env + MaxTimeOffsetSeconds env \<longleftrightarrow>
       unat (Timestamp b) \<le> unat (Now env) + unat (MaxTimeOffsetSeconds env)))"
proof (intro conjI)
  show "checkBlockTime env b parent = None \<longleftrightarrow>
      Timestamp b \<le> Now env + MaxTimeOffsetSeconds env \<and>
      CalcPastMedianTime env parent < Timestamp b"
    by (rule checkBlockTime_None)
  show "checkBlockTime env b parent \<noteq> None \<longleftrightarrow>
      checkBlockTime env b parent = Some errBadTimestamp"
    using checkBlockTime_result [of env b parent] by auto
  show "ValidateBlockHeader env b parent = None \<longleftrightarrow>
      (NodeVersion parent \<le> Version b \<and> Height b = NodeHeight parent + 1 \<and>
       Bits b = CalcNextBits env parent \<and> PreviousBlockId b = NodeHash parent) \<and>
      (Timestamp b \<le> Now env + MaxTimeOffsetSeconds env \<and>
       CalcPastMedianTime env parent < Timestamp b)"
    by (auto simp: ValidateBlockHeader_def checkBlockTime_None not_less)
  show "ValidateBlockHeader env b parent = Some errBadTimestamp \<longleftrightarrow>
      (NodeVersion parent \<le> Version b \<and> Height b = NodeHeight parent + 1 \<and>
       Bits b = CalcNextBits env parent \<and> PreviousBlockId b = NodeHash parent) \<and>
      \<not> (Timestamp b \<le> Now env + MaxTimeOffsetSeconds env \<and>
         CalcPastMedianTime env parent < Timestamp b)"
    using checkBlockTime_result [of env b parent] checkBlockTime_None [of env b parent]
    by (auto simp: ValidateBlockHeader_def not_less)
  show "unat (Now env) + unat (MaxTimeOffsetSeconds env) < 2 ^ 64 \<longrightarrow>
      (Timestamp b \<le> Now env + MaxTimeOffsetSeconds env \<longleftrightarrow>
       unat (Timestamp b) \<le> unat (Now env) + unat (MaxTimeOffsetSeconds env))"
    using u64_le_add_unat by blast
qed

theorem checkBlockTime_window_witness:
  "(ValidateBlockHeader exEnv (exBlock []) exParent = (None :: nat error option))
   \<and> (ValidateBlockHeader exEnv ((exBlock [])\<lparr>Timestamp := 4601\<rparr>) exParent =
        (Some errBadTimestamp :: nat error option))
   \<and> (ValidateBlockHeader exEnv ((exBlock [])\<lparr>Timestamp := 900\<rparr>) exParent =
        (Some errBadTimestamp :: nat error option))
   \<and> unat (Now exEnv) + unat (MaxTimeOffsetSeconds exEnv) < 2 ^ 64
   \<and> Timestamp (exBlock []) \<le> Now exEnv + MaxTimeOffsetSeconds exEnv"
  using
    checkBlockTime_window [of exEnv "exBlock []" exParent]
    checkBlockTime_window [of exEnv "(exBlock [])\<lparr>Timestamp := 4601\<rparr>" exParent]
    checkBlockTime_window [of exEnv "(exBlock [])\<lparr>Timestamp := 900\<rparr>" exParent]
  by (simp add: exBlock_def exParent_def exEnv_def)

section \<open>The transaction loop\<close>

lemma validatorCalls_0: "validatorCalls i ts ss 0 = []"
  by (simp add: validatorCalls_def)

lemma validatorCalls_Suc:
  "validatorCalls i ts (s # ss) (Suc m) = EvValidateTx i ts # validatorCalls (Suc i) (ts @ [s]) ss m"
proof -
  have "[0..<Suc m] = 0 # map Suc [0..<m]"
    by (simp add: upt_conv_Cons map_Suc_upt del: upt_Suc)
  then show ?thesis
    by (simp add: validatorCalls_def comp_def del: upt_Suc)
qed

lemma SetStatus_next: "SetStatus ts (length ts) v = Inr (ts @ [v])"
  by (simp add: SetStatus_def)

lemma gasAfter_Cons: "gasAfter (r # os) (Suc k) = GasUsed (fst r) + gasAfter os k"
  by (simp add: gasAfter_def)

lemma gasAfter_0: "gasAfter os 0 = 0"
  by (simp add: gasAfter_def)

lemma feesOf_Cons: "feesOf (r # os) = BTMValue (fst r) + feesOf os"
  by (simp add: feesOf_def)

lemma statusOf_Cons: "statusOf (r # os) = (snd r \<noteq> None) # statusOf os"
  by (simp add: statusOf_def)

lemma statusOf_length: "length (statusOf os) = length os"
  by (simp add: statusOf_def)

lemma outcomes_length: "length (outcomes env txs b) = length txs"
  by (induction txs arbitrary: b) simp_all

text \<open>
  The running totals are \<open>uint64\<close> sums. As long as the unbounded sum of the values
  stays below \<open>2^64\<close> they are that sum.
\<close>

lemma unat_sum_list_u64:
  fixes xs :: "u64 list"
  assumes "sum_list (map unat xs) < 2 ^ 64"
  shows "unat (sum_list xs) = sum_list (map unat xs)"
  using assms
proof (induction xs)
  case Nil
  then show ?case by simp
next
  case (Cons x xs)
  then have "unat (sum_list xs) = sum_list (map unat xs)" by simp
  moreover from this Cons.prems have "unat x + unat (sum_list xs) < 2 ^ 64" by simp
  then have "unat (x + sum_list xs) = unat x + unat (sum_list xs)"
    by (simp add: unat_add_lem [THEN iffD1])
  ultimately show ?case by simp
qed

lemma gasAfter_unat:
  assumes "sum_list (map (\<lambda>r. unat (GasUsed (fst r))) (take k os)) < 2 ^ 64"
  shows "unat (gasAfter os k) = sum_list (map (\<lambda>r. unat (GasUsed (fst r))) (take k os))"
  using unat_sum_list_u64 [of "map (\<lambda>r. GasUsed (fst r)) (take k os)"] assms
  by (simp add: gasAfter_def comp_def)

lemma coinbaseAmount_unat:
  fixes s :: u64
  assumes "unat s + sum_list (map (\<lambda>r. unat (BTMValue (fst r))) os) < 2 ^ 64"
  shows "unat (s + feesOf os) = unat s + sum_list (map (\<lambda>r. unat (BTMValue (fst r))) os)"
  using unat_sum_list_u64 [of "s # map (\<lambda>r. BTMValue (fst r)) os"] assms
  by (simp add: feesOf_def comp_def)

text \<open>One turn of the loop on a valid answer within the gas limit.\<close>

lemma txloop_step:
  assumes "ValidateTx env tx b = (gs, err)" and "GasValid gs"
    and "\<not> MaxBlockGas env < g + GasUsed gs"
  shows "txloop env n (length (TransactionStatus b)) (tx # txs) b g a =
     (case txloop env n (Suc (length (TransactionStatus b))) txs
             (b\<lparr>TransactionStatus := TransactionStatus b @ [err \<noteq> None]\<rparr>)
             (g + GasUsed gs) (a + BTMValue gs) of
        (r, b', evs) \<Rightarrow> (r, b', EvValidateTx (length (TransactionStatus b)) (TransactionStatus b) # evs))"
  using assms by (simp add: SetStatus_next del: not_None_eq)

lemma txloop_stop_invalid:
  assumes "ValidateTx env tx b = (gs, err)" and "\<not> GasValid gs"
  shows "txloop env n i (tx # txs) b g a =
     (LoopReturn (Wrap err (ValidateOfTransaction i n)), b, [EvValidateTx i (TransactionStatus b)])"
  using assms by simp

lemma txloop_stop_gas:
  assumes "ValidateTx env tx b = (gs, err)" and "GasValid gs"
    and "MaxBlockGas env < g + GasUsed gs"
  shows "txloop env n (length (TransactionStatus b)) (tx # txs) b g a =
     (LoopReturn (Some errOverBlockLimit),
      b\<lparr>TransactionStatus := TransactionStatus b @ [err \<noteq> None]\<rparr>,
      [EvValidateTx (length (TransactionStatus b)) (TransactionStatus b)])"
  using assms by (simp add: SetStatus_next del: not_None_eq)

text \<open>
  The loop after \<open>k\<close> good answers: it has logged \<open>k\<close> calls, set \<open>k\<close> flags, and goes
  on with the remaining transactions.
\<close>

lemma txloop_prefix:
  "length (TransactionStatus b) = i \<Longrightarrow>
   os = outcomes env txs b \<Longrightarrow>
   k \<le> length txs \<Longrightarrow>
   \<forall>j<k. GasValid (fst (os ! j)) \<and> g + gasAfter os (Suc j) \<le> MaxBlockGas env \<Longrightarrow>
   txloop env n i txs b g a =
     (case txloop env n (i + k) (drop k txs)
             (b\<lparr>TransactionStatus := TransactionStatus b @ take k (statusOf os)\<rparr>)
             (g + gasAfter os k) (a + feesOf (take k os)) of
        (r, b', evs) \<Rightarrow> (r, b', validatorCalls i (TransactionStatus b) (statusOf os) k @ evs))"
proof (induction k arbitrary: i b g a os txs)
  case 0
  then show ?case
    by (simp add: gasAfter_0 feesOf_def validatorCalls_0 split: prod.splits)
next
  case (Suc k)
  from Suc.prems(3) obtain tx txs' where txs: "txs = tx # txs'" by (cases txs) auto
  obtain gs err where r: "ValidateTx env tx b = (gs, err)" by (cases "ValidateTx env tx b")
  let ?b1 = "b\<lparr>TransactionStatus := TransactionStatus b @ [err \<noteq> None]\<rparr>"
  let ?os1 = "outcomes env txs' ?b1"
  have os: "os = (gs, err) # ?os1" using Suc.prems(2) r txs by simp
  have v0: "GasValid gs" and g0: "g + GasUsed gs \<le> MaxBlockGas env"
    using Suc.prems(4) os by (auto simp: gasAfter_Cons gasAfter_0 dest: spec[of _ 0])
  have rest: "\<forall>j<k. GasValid (fst (?os1 ! j)) \<and> (g + GasUsed gs) + gasAfter ?os1 (Suc j) \<le> MaxBlockGas env"
  proof (intro allI impI)
    fix j assume "j < k"
    then have "Suc j < Suc k" by simp
    from Suc.prems(4)[rule_format, OF this]
    show "GasValid (fst (?os1 ! j)) \<and> (g + GasUsed gs) + gasAfter ?os1 (Suc j) \<le> MaxBlockGas env"
      by (simp add: os gasAfter_Cons add.assoc)
  qed
  have i: "i = length (TransactionStatus b)" using Suc.prems(1) by simp
  have ng: "\<not> MaxBlockGas env < g + GasUsed gs" using g0 by (simp add: not_less)
  have IH: "txloop env n (Suc i) txs' ?b1 (g + GasUsed gs) (a + BTMValue gs) =
     (case txloop env n (Suc i + k) (drop k txs')
             (?b1\<lparr>TransactionStatus := TransactionStatus ?b1 @ take k (statusOf ?os1)\<rparr>)
             ((g + GasUsed gs) + gasAfter ?os1 k) ((a + BTMValue gs) + feesOf (take k ?os1)) of
        (r, b', evs) \<Rightarrow> (r, b', validatorCalls (Suc i) (TransactionStatus ?b1) (statusOf ?os1) k @ evs))"
    by (rule Suc.IH) (use Suc.prems(1,3) rest txs in simp_all)
  show ?case
    unfolding txs os i
    by (simp only: txloop_step [OF r v0 ng] IH [unfolded i])
       (simp add: statusOf_Cons gasAfter_Cons feesOf_Cons validatorCalls_Suc add.assoc
          split: prod.splits del: not_None_eq)
qed

lemma outcomes_drop:
  "k \<le> length txs \<Longrightarrow>
   outcomes env (drop k txs)
     (b\<lparr>TransactionStatus := TransactionStatus b @ take k (statusOf (outcomes env txs b))\<rparr>) =
   drop k (outcomes env txs b)"
proof (induction k arbitrary: txs b)
  case 0
  then show ?case by simp
next
  case (Suc k)
  then obtain tx txs' where txs: "txs = tx # txs'" by (cases txs) auto
  show ?case
    using Suc.IH [of txs' "b\<lparr>TransactionStatus := TransactionStatus b @ [snd (ValidateTx env tx b) \<noteq> None]\<rparr>"]
      Suc.prems
    by (simp add: txs statusOf_Cons del: not_None_eq)
qed

lemma outcomes_nth:
  assumes "k < length txs"
  shows "ValidateTx env (txs ! k)
           (b\<lparr>TransactionStatus := TransactionStatus b @ take k (statusOf (outcomes env txs b))\<rparr>) =
         outcomes env txs b ! k"
proof -
  have d: "drop k txs = txs ! k # drop (Suc k) txs"
    using assms by (simp add: Cons_nth_drop_Suc)
  have "hd (outcomes env (drop k txs)
     (b\<lparr>TransactionStatus := TransactionStatus b @ take k (statusOf (outcomes env txs b))\<rparr>)) =
     hd (drop k (outcomes env txs b))"
    using assms by (simp add: outcomes_drop)
  then show ?thesis
    using assms by (simp add: d hd_drop_conv_nth outcomes_length)
qed

lemma validatorCalls_snoc:
  "validatorCalls i ts ss k @ [EvValidateTx (i + k) (ts @ take k ss)] = validatorCalls i ts ss (Suc k)"
  by (simp add: validatorCalls_def)

lemma gasAfter_Suc:
  "k < length os \<Longrightarrow> gasAfter os (Suc k) = gasAfter os k + GasUsed (fst (os ! k))"
  by (simp add: gasAfter_def take_Suc_conv_app_nth)

lemma statusOf_take_Suc:
  "k < length os \<Longrightarrow>
   take (Suc k) (statusOf os) = take k (statusOf os) @ [snd (os ! k) \<noteq> None]"
  by (simp add: statusOf_def take_Suc_conv_app_nth del: not_None_eq)

lemma txloop_all_pass:
  assumes "length (TransactionStatus b) = i" and "os = outcomes env txs b"
    and "\<forall>j<length txs. GasValid (fst (os ! j)) \<and> g + gasAfter os (Suc j) \<le> MaxBlockGas env"
  shows "txloop env n i txs b g a =
     (LoopDone (a + feesOf os), b\<lparr>TransactionStatus := TransactionStatus b @ statusOf os\<rparr>,
      validatorCalls i (TransactionStatus b) (statusOf os) (length txs))"
proof -
  have l: "length os = length txs" by (simp add: assms(2) outcomes_length)
  show ?thesis
    using txloop_prefix [OF assms(1,2) le_refl assms(3), of n a] l
    by (simp add: statusOf_length)
qed

lemma txloop_invalid_at:
  assumes "length (TransactionStatus b) = i" and "os = outcomes env txs b"
    and "k < length txs"
    and "\<forall>j<k. GasValid (fst (os ! j)) \<and> g + gasAfter os (Suc j) \<le> MaxBlockGas env"
    and "\<not> GasValid (fst (os ! k))"
  shows "txloop env n i txs b g a =
     (LoopReturn (Wrap (snd (os ! k)) (ValidateOfTransaction (i + k) n)),
      b\<lparr>TransactionStatus := TransactionStatus b @ take k (statusOf os)\<rparr>,
      validatorCalls i (TransactionStatus b) (statusOf os) (Suc k))"
proof -
  let ?bk = "b\<lparr>TransactionStatus := TransactionStatus b @ take k (statusOf os)\<rparr>"
  have d: "drop k txs = txs ! k # drop (Suc k) txs"
    using assms(3) by (simp add: Cons_nth_drop_Suc)
  have v: "ValidateTx env (txs ! k) ?bk = (fst (os ! k), snd (os ! k))"
    using outcomes_nth [OF assms(3), of env b] by (simp add: assms(2))
  have stop: "txloop env n (i + k) (drop k txs) ?bk (g + gasAfter os k) (a + feesOf (take k os)) =
      (LoopReturn (Wrap (snd (os ! k)) (ValidateOfTransaction (i + k) n)), ?bk,
       [EvValidateTx (i + k) (TransactionStatus ?bk)])"
    unfolding d by (rule txloop_stop_invalid [OF v assms(5)])
  have k: "k \<le> length txs" using assms(3) by simp
  show ?thesis
    using txloop_prefix [OF assms(1,2) k assms(4), of n a]
    by (simp add: stop validatorCalls_snoc)
qed

lemma txloop_over_gas_at:
  assumes "length (TransactionStatus b) = i" and "os = outcomes env txs b"
    and "k < length txs"
    and "\<forall>j<k. GasValid (fst (os ! j)) \<and> g + gasAfter os (Suc j) \<le> MaxBlockGas env"
    and "GasValid (fst (os ! k))"
    and "MaxBlockGas env < g + gasAfter os (Suc k)"
  shows "txloop env n i txs b g a =
     (LoopReturn (Some errOverBlockLimit),
      b\<lparr>TransactionStatus := TransactionStatus b @ take (Suc k) (statusOf os)\<rparr>,
      validatorCalls i (TransactionStatus b) (statusOf os) (Suc k))"
proof -
  let ?bk = "b\<lparr>TransactionStatus := TransactionStatus b @ take k (statusOf os)\<rparr>"
  have l: "length os = length txs" by (simp add: assms(2) outcomes_length)
  have d: "drop k txs = txs ! k # drop (Suc k) txs"
    using assms(3) by (simp add: Cons_nth_drop_Suc)
  have v: "ValidateTx env (txs ! k) ?bk = (fst (os ! k), snd (os ! k))"
    using outcomes_nth [OF assms(3), of env b] by (simp add: assms(2))
  have len: "length (TransactionStatus ?bk) = i + k"
    using assms(1,3) l by (simp add: statusOf_length)
  have over: "MaxBlockGas env < (g + gasAfter os k) + GasUsed (fst (os ! k))"
    using assms(3,6) l by (simp add: gasAfter_Suc add.assoc)
  have stop: "txloop env n (i + k) (drop k txs) ?bk (g + gasAfter os k) (a + feesOf (take k os)) =
      (LoopReturn (Some errOverBlockLimit),
       ?bk\<lparr>TransactionStatus := TransactionStatus ?bk @ [snd (os ! k) \<noteq> None]\<rparr>,
       [EvValidateTx (i + k) (TransactionStatus ?bk)])"
    unfolding d len [symmetric] by (rule txloop_stop_gas [OF v assms(5) over])
  have k: "k \<le> length txs" using assms(3) by simp
  show ?thesis
    using txloop_prefix [OF assms(1,2) k assms(4), of n a] assms(3) l
    by (simp add: stop validatorCalls_snoc statusOf_take_Suc del: not_None_eq)
qed

text \<open>Every run of the loop is one of the three above.\<close>

lemma txloop_cases:
  assumes "length (TransactionStatus b) = i" and "os = outcomes env txs b"
  obtains
    (pass) "\<forall>j<length txs. GasValid (fst (os ! j)) \<and> g + gasAfter os (Suc j) \<le> MaxBlockGas env"
  | (invalid) k where "k < length txs"
      "\<forall>j<k. GasValid (fst (os ! j)) \<and> g + gasAfter os (Suc j) \<le> MaxBlockGas env"
      "\<not> GasValid (fst (os ! k))"
  | (over) k where "k < length txs"
      "\<forall>j<k. GasValid (fst (os ! j)) \<and> g + gasAfter os (Suc j) \<le> MaxBlockGas env"
      "GasValid (fst (os ! k))" "MaxBlockGas env < g + gasAfter os (Suc k)"
proof -
  let ?ok = "\<lambda>j. GasValid (fst (os ! j)) \<and> g + gasAfter os (Suc j) \<le> MaxBlockGas env"
  show thesis
  proof (cases "\<forall>j<length txs. ?ok j")
    case True
    then show thesis by (rule pass)
  next
    case False
    then have ex: "\<exists>j. j < length txs \<and> \<not> ?ok j" by blast
    define k where "k = (LEAST j. j < length txs \<and> \<not> ?ok j)"
    have k: "k < length txs \<and> \<not> ?ok k"
      unfolding k_def using ex by (rule LeastI_ex)
    have before: "\<forall>j<k. ?ok j"
    proof (intro allI impI)
      fix j assume jk: "j < k"
      then have "\<not> (j < length txs \<and> \<not> ?ok j)"
        unfolding k_def by (rule not_less_Least)
      moreover have "j < length txs" using jk k by simp
      ultimately show "?ok j" by blast
    qed
    show thesis
    proof (cases "GasValid (fst (os ! k))")
      case False
      with k before show thesis by (blast intro: invalid)
    next
      case True
      with k have "MaxBlockGas env < g + gasAfter os (Suc k)" by (simp add: not_le)
      with True k before show thesis by (blast intro: over)
    qed
  qed
qed

section \<open>The pipeline\<close>

lemma ValidateBlock_after_authentication:
  assumes "ValidateBlockHeader env b parent = None"
    and "authenticate env b block authoritys = (None, ev1)"
  shows "ValidateBlock env b parent block authoritys position =
     (case txloop env (length (Transactions b)) 0 (Transactions b)
             (b\<lparr>TransactionStatus := []\<rparr>) 0 (BlockSubsidy env (Height b)) of
        (LoopReturn r, b1, ev2) \<Rightarrow> (Return r, b1, ev1 @ ev2)
      | (LoopDone coinbaseAmount, b1, ev2) \<Rightarrow>
          (case checkCoinbaseAmount b1 coinbaseAmount of
             Panic \<Rightarrow> (Panic, b1, ev1 @ ev2 @ [EvCheckCoinbase coinbaseAmount])
           | Return (Some err) \<Rightarrow>
               (Return (Some err), b1, ev1 @ ev2 @ [EvCheckCoinbase coinbaseAmount])
           | Return None \<Rightarrow>
               (case merkleChecks env b1 of
                  (r, ev3) \<Rightarrow>
                    (Return r, b1, ev1 @ ev2 @ [EvCheckCoinbase coinbaseAmount] @ ev3))))"
  using assms by (simp add: ValidateBlock_def NewTransactionStatus_def)

lemma checkCoinbaseAmount_status:
  "checkCoinbaseAmount (b\<lparr>TransactionStatus := ts\<rparr>) amount = checkCoinbaseAmount b amount"
  by (simp add: checkCoinbaseAmount_def)

lemma exHeader: "ValidateBlockHeader exEnv (exBlock txs) exParent = None"
  by (simp add: ValidateBlockHeader_def checkBlockTime_def exEnv_def exBlock_def exParent_def)

lemma exAuthenticate:
  "authenticate exEnv (exBlock txs) exText exAuthoritys = (None, [EvVerify exKey])"
  by (simp add: authenticate_def mapIndex_def exAuthoritys_def exBlock_def fromHexChar_def
      copyXPub_def exKey_def exEnv_def exText_def Let_def)

lemma exTransactions: "Transactions (exBlock txs) = txs"
  by (simp add: exBlock_def)

lemma exValidateTx_exTx:
  "ValidateTx exEnv (exTx g f v e) b =
     (\<lparr>BTMValue = f, GasUsed = g, GasValid = (v = 0)\<rparr>, if e = 0 then None else Some (unat e))"
  by (simp add: exEnv_def exValidateTx_def exTx_def)

lemma ValidateBlock_all_pass:
  fixes env :: "('e, 'tb) env" and b :: Block
  defines "os \<equiv> outcomes env (Transactions b) (b\<lparr>TransactionStatus := []\<rparr>)"
  assumes "ValidateBlockHeader env b parent = None"
    and "authenticate env b block authoritys = (None, ev1)"
    and "\<forall>j<length (Transactions b).
           GasValid (fst (os ! j)) \<and> gasAfter os (Suc j) \<le> MaxBlockGas env"
  shows "ValidateBlock env b parent block authoritys position =
     (case checkCoinbaseAmount b (BlockSubsidy env (Height b) + feesOf os) of
        Panic \<Rightarrow>
          (Panic, b\<lparr>TransactionStatus := statusOf os\<rparr>,
           ev1 @ validatorCalls 0 [] (statusOf os) (length (Transactions b)) @
           [EvCheckCoinbase (BlockSubsidy env (Height b) + feesOf os)])
      | Return (Some err) \<Rightarrow>
          (Return (Some err), b\<lparr>TransactionStatus := statusOf os\<rparr>,
           ev1 @ validatorCalls 0 [] (statusOf os) (length (Transactions b)) @
           [EvCheckCoinbase (BlockSubsidy env (Height b) + feesOf os)])
      | Return None \<Rightarrow>
          (case merkleChecks env (b\<lparr>TransactionStatus := statusOf os\<rparr>) of
             (r, ev3) \<Rightarrow>
               (Return r, b\<lparr>TransactionStatus := statusOf os\<rparr>,
                ev1 @ validatorCalls 0 [] (statusOf os) (length (Transactions b)) @
                [EvCheckCoinbase (BlockSubsidy env (Height b) + feesOf os)] @ ev3)))"
proof -
  let ?b0 = "b\<lparr>TransactionStatus := []\<rparr>"
  have os: "os = outcomes env (Transactions b) ?b0" by (simp add: os_def)
  have len: "length (TransactionStatus ?b0) = 0" by simp
  have ok: "\<forall>j<length (Transactions b).
      GasValid (fst (os ! j)) \<and> 0 + gasAfter os (Suc j) \<le> MaxBlockGas env"
    using assms(4) by simp
  have "txloop env (length (Transactions b)) 0 (Transactions b) ?b0 0 (BlockSubsidy env (Height b)) =
     (LoopDone (BlockSubsidy env (Height b) + feesOf os),
      ?b0\<lparr>TransactionStatus := TransactionStatus ?b0 @ statusOf os\<rparr>,
      validatorCalls 0 (TransactionStatus ?b0) (statusOf os) (length (Transactions b)))"
    by (rule txloop_all_pass [OF len os ok])
  then show ?thesis
    by (simp add: ValidateBlock_after_authentication [OF assms(2,3)] checkCoinbaseAmount_status)
qed

lemma merkleChecks_None:
  "fst (merkleChecks env b) = None \<longleftrightarrow>
     TxMerkleRoot env (Transactions b) = Inr (TransactionsRoot b) \<and>
     TxStatusMerkleRoot env (TransactionStatus b) = Inr (TransactionStatusHash b)"
  by (auto simp: merkleChecks_def Wrap_def split: sum.splits)

text \<open>
  C7. Let the header, the proposer, every transaction and the coinbase amount pass. Then
  the merkle root of the transactions (in the order of the block) is compared with the
  header's \<open>TransactionsRoot\<close>, and only then the merkle root of the status flags the
  loop has set (in index order) with the header's \<open>TransactionStatusHash\<close>. A wrong
  transactions root is \<open>errMismatchedMerkleRoot\<close> with the detail "transaction id
  merkle root", and the status root is not computed; a wrong status root is
  \<open>errMismatchedMerkleRoot\<close> with the detail "transaction status merkle root";
  \<open>ValidateBlock\<close> returns \<open>nil\<close> exactly when both roots are computed and equal the
  header's.
\<close>

theorem ValidateBlock_merkle_roots:
  fixes env :: "('e, 'tb) env" and b :: Block
  defines "os \<equiv> outcomes env (Transactions b) (b\<lparr>TransactionStatus := []\<rparr>)"
  defines "calls \<equiv> validatorCalls 0 [] (statusOf os) (length (Transactions b)) @
                     [EvCheckCoinbase (BlockSubsidy env (Height b) + feesOf os)]"
  assumes "ValidateBlockHeader env b parent = None"
    and "authenticate env b block authoritys = (None, ev1)"
    and "\<forall>j<length (Transactions b).
           GasValid (fst (os ! j)) \<and> gasAfter os (Suc j) \<le> MaxBlockGas env"
    and "checkCoinbaseAmount b (BlockSubsidy env (Height b) + feesOf os) =
           (Return None :: 'e go_result)"
  shows "(\<forall>root. TxMerkleRoot env (Transactions b) = Inr root \<and> root \<noteq> TransactionsRoot b \<longrightarrow>
            ValidateBlock env b parent block authoritys position =
              (Return (Some (errMismatchedMerkleRoot TransactionIdMerkleRoot)),
               b\<lparr>TransactionStatus := statusOf os\<rparr>,
               ev1 @ calls @ [EvTxMerkleRoot]))
       \<and> (\<forall>h. TxMerkleRoot env (Transactions b) = Inr (TransactionsRoot b) \<and>
              TxStatusMerkleRoot env (statusOf os) = Inr h \<and> h \<noteq> TransactionStatusHash b \<longrightarrow>
            ValidateBlock env b parent block authoritys position =
              (Return (Some (errMismatchedMerkleRoot TransactionStatusMerkleRoot)),
               b\<lparr>TransactionStatus := statusOf os\<rparr>,
               ev1 @ calls @ [EvTxMerkleRoot, EvTxStatusMerkleRoot (statusOf os)]))
       \<and> (fst (ValidateBlock env b parent block authoritys position) = Return None \<longleftrightarrow>
            TxMerkleRoot env (Transactions b) = Inr (TransactionsRoot b) \<and>
            TxStatusMerkleRoot env (statusOf os) = Inr (TransactionStatusHash b))
       \<and> (fst (ValidateBlock env b parent block authoritys position) = Return None \<longrightarrow>
            ValidateBlock env b parent block authoritys position =
              (Return None, b\<lparr>TransactionStatus := statusOf os\<rparr>,
               ev1 @ calls @ [EvTxMerkleRoot, EvTxStatusMerkleRoot (statusOf os)]))"
proof -
  let ?b1 = "b\<lparr>TransactionStatus := statusOf os\<rparr>"
  have vb: "ValidateBlock env b parent block authoritys position =
      (case merkleChecks env ?b1 of (r, ev3) \<Rightarrow> (Return r, ?b1, ev1 @ calls @ ev3))"
    using ValidateBlock_all_pass [OF assms(3,4) assms(5) [unfolded os_def], of position] assms(6)
    by (simp add: os_def calls_def)
  have none: "fst (ValidateBlock env b parent block authoritys position) = Return None \<longleftrightarrow>
      fst (merkleChecks env ?b1) = None"
    by (simp add: vb split: prod.splits)
  show ?thesis
  proof (intro conjI allI impI)
    fix root
    assume "TxMerkleRoot env (Transactions b) = Inr root \<and> root \<noteq> TransactionsRoot b"
    then show "ValidateBlock env b parent block authoritys position =
        (Return (Some (errMismatchedMerkleRoot TransactionIdMerkleRoot)), ?b1,
         ev1 @ calls @ [EvTxMerkleRoot])"
      by (simp add: vb merkleChecks_def)
  next
    fix h
    assume "TxMerkleRoot env (Transactions b) = Inr (TransactionsRoot b) \<and>
        TxStatusMerkleRoot env (statusOf os) = Inr h \<and> h \<noteq> TransactionStatusHash b"
    then show "ValidateBlock env b parent block authoritys position =
        (Return (Some (errMismatchedMerkleRoot TransactionStatusMerkleRoot)), ?b1,
         ev1 @ calls @ [EvTxMerkleRoot, EvTxStatusMerkleRoot (statusOf os)])"
      by (simp add: vb merkleChecks_def)
  next
    show "fst (ValidateBlock env b parent block authoritys position) = Return None \<longleftrightarrow>
        TxMerkleRoot env (Transactions b) = Inr (TransactionsRoot b) \<and>
        TxStatusMerkleRoot env (statusOf os) = Inr (TransactionStatusHash b)"
      by (simp add: none merkleChecks_None)
  next
    assume "fst (ValidateBlock env b parent block authoritys position) = Return None"
    then have "TxMerkleRoot env (Transactions b) = Inr (TransactionsRoot b) \<and>
        TxStatusMerkleRoot env (statusOf os) = Inr (TransactionStatusHash b)"
      by (simp add: none merkleChecks_None)
    then show "ValidateBlock env b parent block authoritys position =
        (Return None, ?b1, ev1 @ calls @ [EvTxMerkleRoot, EvTxStatusMerkleRoot (statusOf os)])"
      by (simp add: vb merkleChecks_def)
  qed
qed

lemma exValidateTx_exCoinbase:
  "ValidateTx exEnv (exCoinbase a) b = (\<lparr>BTMValue = 0, GasUsed = 0, GasValid = True\<rparr>, None)"
  by (simp add: exEnv_def exValidateTx_def exCoinbase_def)

lemma exCheckCoinbase:
  "Transactions b = exCoinbase a # txs \<Longrightarrow>
   checkCoinbaseAmount b a' =
     (if a \<noteq> a' then Return (Some (ErrWrongCoinbaseTransaction DismatchOutputAmount))
      else Return None)"
  by (simp add: checkCoinbaseAmount_def Output_def exCoinbase_def)

theorem ValidateBlock_merkle_roots_witness:
  "ValidateBlock exEnv (exBlock [exCoinbase 50]) exParent exText exAuthoritys 0 =
     (Return None, (exBlock [exCoinbase 50])\<lparr>TransactionStatus := [False]\<rparr>,
      [EvVerify exKey, EvValidateTx 0 [], EvCheckCoinbase 50, EvTxMerkleRoot,
       EvTxStatusMerkleRoot [False]])
   \<and> ValidateBlock exEnv ((exBlock [exCoinbase 50])\<lparr>TransactionsRoot := Hash 0 0 0 0\<rparr>)
       exParent exText exAuthoritys 0 =
     (Return (Some (errMismatchedMerkleRoot TransactionIdMerkleRoot)),
      (exBlock [exCoinbase 50])\<lparr>TransactionsRoot := Hash 0 0 0 0, TransactionStatus := [False]\<rparr>,
      [EvVerify exKey, EvValidateTx 0 [], EvCheckCoinbase 50, EvTxMerkleRoot])
   \<and> ValidateBlock exEnv ((exBlock [exCoinbase 50])\<lparr>TransactionStatusHash := Hash 0 0 0 0\<rparr>)
       exParent exText exAuthoritys 0 =
     (Return (Some (errMismatchedMerkleRoot TransactionStatusMerkleRoot)),
      (exBlock [exCoinbase 50])\<lparr>TransactionStatusHash := Hash 0 0 0 0, TransactionStatus := [False]\<rparr>,
      [EvVerify exKey, EvValidateTx 0 [], EvCheckCoinbase 50, EvTxMerkleRoot,
       EvTxStatusMerkleRoot [False]])"
proof -
  let ?b = "exBlock [exCoinbase 50]"
  let ?b2 = "?b\<lparr>TransactionsRoot := Hash 0 0 0 0\<rparr>"
  let ?b3 = "?b\<lparr>TransactionStatusHash := Hash 0 0 0 0\<rparr>"
  have h2: "ValidateBlockHeader exEnv ?b2 exParent = None"
    and h3: "ValidateBlockHeader exEnv ?b3 exParent = None"
    by (simp_all add: ValidateBlockHeader_def checkBlockTime_def exEnv_def exBlock_def exParent_def)
  have a2: "authenticate exEnv ?b2 exText exAuthoritys = (None, [EvVerify exKey])"
    and a3: "authenticate exEnv ?b3 exText exAuthoritys = (None, [EvVerify exKey])"
    by (simp_all add: authenticate_def mapIndex_def exAuthoritys_def exBlock_def fromHexChar_def
        copyXPub_def exKey_def exEnv_def exText_def Let_def)
  have p: "\<forall>j<length (Transactions ?b).
      GasValid (fst (outcomes exEnv (Transactions ?b) (?b\<lparr>TransactionStatus := []\<rparr>) ! j)) \<and>
      gasAfter (outcomes exEnv (Transactions ?b) (?b\<lparr>TransactionStatus := []\<rparr>)) (Suc j)
        \<le> MaxBlockGas exEnv"
    and p2: "\<forall>j<length (Transactions ?b2).
      GasValid (fst (outcomes exEnv (Transactions ?b2) (?b2\<lparr>TransactionStatus := []\<rparr>) ! j)) \<and>
      gasAfter (outcomes exEnv (Transactions ?b2) (?b2\<lparr>TransactionStatus := []\<rparr>)) (Suc j)
        \<le> MaxBlockGas exEnv"
    and p3: "\<forall>j<length (Transactions ?b3).
      GasValid (fst (outcomes exEnv (Transactions ?b3) (?b3\<lparr>TransactionStatus := []\<rparr>) ! j)) \<and>
      gasAfter (outcomes exEnv (Transactions ?b3) (?b3\<lparr>TransactionStatus := []\<rparr>)) (Suc j)
        \<le> MaxBlockGas exEnv"
    by (simp_all add: exTransactions exValidateTx_exCoinbase gasAfter_def)
  have sub: "BlockSubsidy exEnv h = 50" for h by (simp add: exEnv_def)
  have c: "checkCoinbaseAmount ?b
      (BlockSubsidy exEnv (Height ?b) +
       feesOf (outcomes exEnv (Transactions ?b) (?b\<lparr>TransactionStatus := []\<rparr>))) =
      (Return None :: nat go_result)"
    and c2: "checkCoinbaseAmount ?b2
      (BlockSubsidy exEnv (Height ?b2) +
       feesOf (outcomes exEnv (Transactions ?b2) (?b2\<lparr>TransactionStatus := []\<rparr>))) =
      (Return None :: nat go_result)"
    and c3: "checkCoinbaseAmount ?b3
      (BlockSubsidy exEnv (Height ?b3) +
       feesOf (outcomes exEnv (Transactions ?b3) (?b3\<lparr>TransactionStatus := []\<rparr>))) =
      (Return None :: nat go_result)"
    by (simp_all add: exTransactions exValidateTx_exCoinbase feesOf_def sub
        exCheckCoinbase [of _ 50 "[]"])
  show ?thesis
    using ValidateBlock_merkle_roots [OF exHeader exAuthenticate p c, of 0]
      ValidateBlock_merkle_roots [OF h2 a2 p2 c2, of 0]
      ValidateBlock_merkle_roots [OF h3 a3 p3 c3, of 0]
    by (simp add: exTransactions exValidateTx_exCoinbase feesOf_def sub statusOf_def
        validatorCalls_def)
      (simp add: exBlock_def exEnv_def)
qed

text \<open>
  C9. The last parameter of \<open>ValidateBlock\<close> is never read: two calls that differ in it
  only yield the same result, the same block and the same log.
\<close>

theorem ValidateBlock_position_unused:
  "ValidateBlock env b parent block authoritys position =
   ValidateBlock env b parent block authoritys position'"
  by (simp add: ValidateBlock_def)

section \<open>Which stage an error comes from\<close>

lemma DecodeString_errors:
  "DecodeString s = Inl e \<Longrightarrow> e = ErrLength \<or> (\<exists>c. e = InvalidByteError c)"
  by (induction s arbitrary: e rule: DecodeString.induct)
     (auto split: option.splits sum.splits)

lemma authenticate_errors:
  assumes "authenticate env b block authoritys = (Some e, ev)"
  shows "e = VerificationSignatureFailed \<or> e = ErrLength \<or> (\<exists>c. e = InvalidByteError c)"
proof (cases "DecodeString (mapIndex authoritys (ControlProgram (GetProof b))) :: 'a error + byte list")
  case (Inl err)
  with assms have "e = err" by (simp add: authenticate_def)
  with Inl DecodeString_errors [of _ err] show ?thesis by blast
next
  case (Inr tmp)
  with assms show ?thesis by (simp add: authenticate_def Let_def split: if_splits)
qed

lemma checkCoinbaseAmount_results:
  fixes r :: "'e go_result"
  assumes "r = checkCoinbaseAmount b amount"
  shows "r = Panic \<or> r = Return None
   \<or> (\<exists>d. r = Return (Some (ErrWrongCoinbaseTransaction d)))
   \<or> (\<exists>h. r = Return (Some (ErrMissingEntry h)))
   \<or> (\<exists>h. r = Return (Some (ErrEntryType h)))"
  unfolding assms
  by (simp add: checkCoinbaseAmount_def Output_def
      split: list.splits option.splits Entry.splits)

lemma merkleChecks_results:
  "fst (merkleChecks env b) = None
   \<or> (\<exists>d. fst (merkleChecks env b) = Some (errMismatchedMerkleRoot d))
   \<or> (\<exists>e. fst (merkleChecks env b) = Some (Wrapped e ComputingTransactionIdMerkleRoot))
   \<or> (\<exists>e. fst (merkleChecks env b) = Some (Wrapped e ComputingTransactionStatusMerkleRoot))"
  by (simp add: merkleChecks_def Wrap_def split: sum.splits)

lemma checkCoinbaseAmount_wrong:
  "(checkCoinbaseAmount b amount :: 'e go_result) =
      Return (Some (ErrWrongCoinbaseTransaction d)) \<longleftrightarrow>
     (Transactions b = [] \<and> d = BlockIsEmpty) \<or>
     (\<exists>tx rest r rs a. Transactions b = tx # rest \<and> ResultIds tx = r # rs \<and>
        (Output tx r :: 'e error + u64) = Inr a \<and> a \<noteq> amount \<and> d = DismatchOutputAmount)"
proof (cases "Transactions b")
  case Nil
  then show ?thesis by (auto simp: checkCoinbaseAmount_def)
next
  case (Cons tx rest)
  show ?thesis
  proof (cases "ResultIds tx")
    case Nil
    with Cons show ?thesis by (simp add: checkCoinbaseAmount_def)
  next
    case (Cons r rs)
    show ?thesis
    proof (cases "Output tx r :: 'e error + u64")
      case (Inl err)
      then have "err = ErrMissingEntry r \<or> err = ErrEntryType r"
        by (auto simp: Output_def split: option.splits Entry.splits)
      with Inl Cons \<open>Transactions b = tx # rest\<close> show ?thesis
        by (auto simp: checkCoinbaseAmount_def)
    next
      case (Inr a)
      with Cons \<open>Transactions b = tx # rest\<close> show ?thesis
        by (auto simp: checkCoinbaseAmount_def)
    qed
  qed
qed

text \<open>What \<open>ValidateBlock\<close> yields in each of the three runs of the loop.\<close>

lemma ValidateBlock_invalid_at:
  fixes env :: "('e, 'tb) env" and b :: Block
  defines "os \<equiv> outcomes env (Transactions b) (b\<lparr>TransactionStatus := []\<rparr>)"
  assumes "ValidateBlockHeader env b parent = None"
    and "authenticate env b block authoritys = (None, ev1)"
    and "k < length (Transactions b)"
    and "\<forall>j<k. GasValid (fst (os ! j)) \<and> gasAfter os (Suc j) \<le> MaxBlockGas env"
    and "\<not> GasValid (fst (os ! k))"
  shows "ValidateBlock env b parent block authoritys position =
     (Return (Wrap (snd (os ! k)) (ValidateOfTransaction k (length (Transactions b)))),
      b\<lparr>TransactionStatus := take k (statusOf os)\<rparr>,
      ev1 @ validatorCalls 0 [] (statusOf os) (Suc k))"
proof -
  let ?b0 = "b\<lparr>TransactionStatus := []\<rparr>"
  have os: "os = outcomes env (Transactions b) ?b0" by (simp add: os_def)
  have len: "length (TransactionStatus ?b0) = 0" by simp
  have before: "\<forall>j<k. GasValid (fst (os ! j)) \<and> 0 + gasAfter os (Suc j) \<le> MaxBlockGas env"
    using assms(5) by simp
  have "txloop env (length (Transactions b)) 0 (Transactions b) ?b0 0 (BlockSubsidy env (Height b)) =
     (LoopReturn (Wrap (snd (os ! k)) (ValidateOfTransaction (0 + k) (length (Transactions b)))),
      ?b0\<lparr>TransactionStatus := TransactionStatus ?b0 @ take k (statusOf os)\<rparr>,
      validatorCalls 0 (TransactionStatus ?b0) (statusOf os) (Suc k))"
    by (rule txloop_invalid_at [OF len os assms(4) before assms(6)])
  then show ?thesis
    by (simp add: ValidateBlock_after_authentication [OF assms(2,3)])
qed

lemma ValidateBlock_over_gas_at:
  fixes env :: "('e, 'tb) env" and b :: Block
  defines "os \<equiv> outcomes env (Transactions b) (b\<lparr>TransactionStatus := []\<rparr>)"
  assumes "ValidateBlockHeader env b parent = None"
    and "authenticate env b block authoritys = (None, ev1)"
    and "k < length (Transactions b)"
    and "\<forall>j<k. GasValid (fst (os ! j)) \<and> gasAfter os (Suc j) \<le> MaxBlockGas env"
    and "GasValid (fst (os ! k))"
    and "MaxBlockGas env < gasAfter os (Suc k)"
  shows "ValidateBlock env b parent block authoritys position =
     (Return (Some errOverBlockLimit),
      b\<lparr>TransactionStatus := take (Suc k) (statusOf os)\<rparr>,
      ev1 @ validatorCalls 0 [] (statusOf os) (Suc k))"
proof -
  let ?b0 = "b\<lparr>TransactionStatus := []\<rparr>"
  have os: "os = outcomes env (Transactions b) ?b0" by (simp add: os_def)
  have len: "length (TransactionStatus ?b0) = 0" by simp
  have before: "\<forall>j<k. GasValid (fst (os ! j)) \<and> 0 + gasAfter os (Suc j) \<le> MaxBlockGas env"
    using assms(5) by simp
  have over: "MaxBlockGas env < 0 + gasAfter os (Suc k)" using assms(7) by simp
  have "txloop env (length (Transactions b)) 0 (Transactions b) ?b0 0 (BlockSubsidy env (Height b)) =
     (LoopReturn (Some errOverBlockLimit),
      ?b0\<lparr>TransactionStatus := TransactionStatus ?b0 @ take (Suc k) (statusOf os)\<rparr>,
      validatorCalls 0 (TransactionStatus ?b0) (statusOf os) (Suc k))"
    by (rule txloop_over_gas_at [OF len os assms(4) before assms(6) over])
  then show ?thesis
    by (simp add: ValidateBlock_after_authentication [OF assms(2,3)])
qed

lemma ValidateBlock_cases:
  fixes env :: "('e, 'tb) env" and b :: Block
  defines "os \<equiv> outcomes env (Transactions b) (b\<lparr>TransactionStatus := []\<rparr>)"
  obtains
    (pass) "\<forall>j<length (Transactions b).
              GasValid (fst (os ! j)) \<and> gasAfter os (Suc j) \<le> MaxBlockGas env"
  | (invalid) k where "k < length (Transactions b)"
      "\<forall>j<k. GasValid (fst (os ! j)) \<and> gasAfter os (Suc j) \<le> MaxBlockGas env"
      "\<not> GasValid (fst (os ! k))"
  | (over) k where "k < length (Transactions b)"
      "\<forall>j<k. GasValid (fst (os ! j)) \<and> gasAfter os (Suc j) \<le> MaxBlockGas env"
      "GasValid (fst (os ! k))" "MaxBlockGas env < gasAfter os (Suc k)"
proof -
  let ?b0 = "b\<lparr>TransactionStatus := []\<rparr>"
  have os: "os = outcomes env (Transactions b) ?b0" by (simp add: os_def)
  have len: "length (TransactionStatus ?b0) = 0" by simp
  show thesis
    using txloop_cases [OF len os, of 0] pass invalid over by (auto simp: )
qed

text \<open>
  C3. \<open>ValidateBlock\<close> returns \<open>ErrWrongCoinbaseTransaction\<close> in exactly two
  situations, both after the header, the proposer and every transaction have passed: the
  block has no transaction (detail "block is empty"), or the amount of the output named by
  the first result of the first transaction differs from \<open>BlockSubsidy\<close> of the block's
  height plus the fees of all transactions (detail "dismatch output amount"). The sum is
  the \<open>uint64\<close> value of \<open>coinbaseAmount\<close>, which is the unbounded sum of the subsidy
  and the fees whenever that sum is below \<open>2^64\<close>.
\<close>

theorem ValidateBlock_wrong_coinbase:
  fixes env :: "('e, 'tb) env" and b :: Block
  defines "os \<equiv> outcomes env (Transactions b) (b\<lparr>TransactionStatus := []\<rparr>)"
  shows "(fst (ValidateBlock env b parent block authoritys position) =
            Return (Some (ErrWrongCoinbaseTransaction d)) \<longleftrightarrow>
          ValidateBlockHeader env b parent = None \<and>
          fst (authenticate env b block authoritys) = None \<and>
          (\<forall>j<length (Transactions b).
             GasValid (fst (os ! j)) \<and> gasAfter os (Suc j) \<le> MaxBlockGas env) \<and>
          (Transactions b = [] \<and> d = BlockIsEmpty \<or>
           (\<exists>tx rest r rs a.
              Transactions b = tx # rest \<and> ResultIds tx = r # rs \<and>
              (Output tx r :: 'e error + u64) = Inr a \<and>
              a \<noteq> BlockSubsidy env (Height b) + feesOf os \<and> d = DismatchOutputAmount)))
       \<and> (unat (BlockSubsidy env (Height b)) +
            sum_list (map (\<lambda>r. unat (BTMValue (fst r))) os) < 2 ^ 64 \<longrightarrow>
          unat (BlockSubsidy env (Height b) + feesOf os) =
            unat (BlockSubsidy env (Height b)) +
            sum_list (map (\<lambda>r. unat (BTMValue (fst r))) os))"
    (is "(?L \<longleftrightarrow> ?H \<and> ?A \<and> ?P \<and> ?C) \<and> ?N")
proof -
  let ?amt = "BlockSubsidy env (Height b) + feesOf os"
  let ?vb = "ValidateBlock env b parent block authoritys position"
  have C: "?C \<longleftrightarrow>
      (checkCoinbaseAmount b ?amt :: 'e go_result) = Return (Some (ErrWrongCoinbaseTransaction d))"
    by (simp add: checkCoinbaseAmount_wrong)
  have passed: "fst ?vb = Return (Some (ErrWrongCoinbaseTransaction d)) \<longleftrightarrow> ?C"
    if h: "?H" and a: "?A" and p: "?P"
  proof -
    obtain ev1 where a': "authenticate env b block authoritys = (None, ev1)"
      using a by (cases "authenticate env b block authoritys") auto
    note vb = ValidateBlock_all_pass [OF h a' p [unfolded os_def], of position, folded os_def]
    show ?thesis
    proof (cases "checkCoinbaseAmount b ?amt :: 'e go_result")
      case Panic
      then show ?thesis unfolding C by (simp add: vb)
    next
      case (Return ro)
      show ?thesis
      proof (cases ro)
        case (Some err)
        with Return show ?thesis unfolding C by (simp add: vb)
      next
        case None
        obtain r ev3 where m: "merkleChecks env (b\<lparr>TransactionStatus := statusOf os\<rparr>) = (r, ev3)"
          by (cases "merkleChecks env (b\<lparr>TransactionStatus := statusOf os\<rparr>)")
        have "r \<noteq> Some (ErrWrongCoinbaseTransaction d)"
          using merkleChecks_results [of env "b\<lparr>TransactionStatus := statusOf os\<rparr>"] m
          by auto
        with None Return m show ?thesis unfolding C by (simp add: vb)
      qed
    qed
  qed
  have main: "?L \<longleftrightarrow> ?H \<and> ?A \<and> ?P \<and> ?C"
  proof
    assume L: ?L
    have h: ?H
    proof (rule ccontr)
      assume "\<not> ?H"
      then obtain err where "ValidateBlockHeader env b parent = Some err" by auto
      with L show False
        by (auto simp: ValidateBlock_def ValidateBlockHeader_def checkBlockTime_def
            split: if_splits)
    qed
    obtain ao ev1 where a': "authenticate env b block authoritys = (ao, ev1)"
      by (cases "authenticate env b block authoritys")
    have a: ?A
    proof (rule ccontr)
      assume "\<not> ?A"
      then obtain err where e: "ao = Some err" using a' by auto
      with L h a' have "err = ErrWrongCoinbaseTransaction d"
        by (simp add: ValidateBlock_def)
      with authenticate_errors [OF a' [unfolded e]] show False by auto
    qed
    then have a'': "authenticate env b block authoritys = (None, ev1)" using a' by simp
    have p: ?P
    proof (rule ValidateBlock_cases [of b env])
      assume "\<forall>j<length (Transactions b).
          GasValid (fst (outcomes env (Transactions b) (b\<lparr>TransactionStatus := []\<rparr>) ! j)) \<and>
          gasAfter (outcomes env (Transactions b) (b\<lparr>TransactionStatus := []\<rparr>)) (Suc j)
            \<le> MaxBlockGas env"
      then show ?P by (simp add: os_def)
    next
      fix k
      assume "k < length (Transactions b)"
        and "\<forall>j<k. GasValid (fst (outcomes env (Transactions b) (b\<lparr>TransactionStatus := []\<rparr>) ! j)) \<and>
          gasAfter (outcomes env (Transactions b) (b\<lparr>TransactionStatus := []\<rparr>)) (Suc j)
            \<le> MaxBlockGas env"
        and "\<not> GasValid (fst (outcomes env (Transactions b) (b\<lparr>TransactionStatus := []\<rparr>) ! k))"
      from ValidateBlock_invalid_at [OF h a'' this, of position] L
      show ?P by (auto simp: Wrap_def split: option.splits)
    next
      fix k
      assume "k < length (Transactions b)"
        and "\<forall>j<k. GasValid (fst (outcomes env (Transactions b) (b\<lparr>TransactionStatus := []\<rparr>) ! j)) \<and>
          gasAfter (outcomes env (Transactions b) (b\<lparr>TransactionStatus := []\<rparr>)) (Suc j)
            \<le> MaxBlockGas env"
        and "GasValid (fst (outcomes env (Transactions b) (b\<lparr>TransactionStatus := []\<rparr>) ! k))"
        and "MaxBlockGas env
            < gasAfter (outcomes env (Transactions b) (b\<lparr>TransactionStatus := []\<rparr>)) (Suc k)"
      from ValidateBlock_over_gas_at [OF h a'' this, of position] L
      show ?P by simp
    qed
    from passed [OF h a p] L h a p show "?H \<and> ?A \<and> ?P \<and> ?C" by blast
  next
    assume "?H \<and> ?A \<and> ?P \<and> ?C"
    then show ?L using passed by blast
  qed
  have ?N using coinbaseAmount_unat by blast
  with main show ?thesis by (rule conjI)
qed

theorem ValidateBlock_wrong_coinbase_witness:
  "fst (ValidateBlock exEnv (exBlock []) exParent exText exAuthoritys 0) =
     Return (Some (ErrWrongCoinbaseTransaction BlockIsEmpty))
   \<and> fst (ValidateBlock exEnv (exBlock [exCoinbase 50, exTx 10 5 0 0]) exParent exText
            exAuthoritys 0) =
     Return (Some (ErrWrongCoinbaseTransaction DismatchOutputAmount))
   \<and> fst (ValidateBlock exEnv (exBlock [exCoinbase 55, exTx 10 5 0 0]) exParent exText
            exAuthoritys 0) \<noteq>
     Return (Some (ErrWrongCoinbaseTransaction DismatchOutputAmount))"
proof -
  have out: "(Output (exCoinbase a) (Hash 5 0 0 0) :: nat error + u64) = Inr a" for a
    by (simp add: Output_def exCoinbase_def)
  have res: "ResultIds (exCoinbase a) = [Hash 5 0 0 0]" for a
    by (simp add: exCoinbase_def)
  have sub: "BlockSubsidy exEnv h = 50" for h by (simp add: exEnv_def)
  have gas: "MaxBlockGas exEnv = 100" by (simp add: exEnv_def)
  show ?thesis
    using
      ValidateBlock_wrong_coinbase [where env = exEnv and b = "exBlock []" and parent = exParent
        and block = exText and authoritys = exAuthoritys and position = 0 and d = BlockIsEmpty,
        THEN conjunct1]
      ValidateBlock_wrong_coinbase [where env = exEnv
        and b = "exBlock [exCoinbase 50, exTx 10 5 0 0]" and parent = exParent
        and block = exText and authoritys = exAuthoritys and position = 0
        and d = DismatchOutputAmount, THEN conjunct1]
      ValidateBlock_wrong_coinbase [where env = exEnv
        and b = "exBlock [exCoinbase 55, exTx 10 5 0 0]" and parent = exParent
        and block = exText and authoritys = exAuthoritys and position = 0
        and d = DismatchOutputAmount, THEN conjunct1]
    by (simp add: exHeader exAuthenticate exTransactions exValidateTx_exCoinbase
        exValidateTx_exTx feesOf_def gasAfter_def sub gas less_Suc_eq out res)
qed

section \<open>The status left on the block\<close>

lemma ValidateBlockHeader_status:
  "ValidateBlockHeader env (b\<lparr>TransactionStatus := ts\<rparr>) parent = ValidateBlockHeader env b parent"
  by (simp add: ValidateBlockHeader_def checkBlockTime_def)

lemma authenticate_status:
  "authenticate env (b\<lparr>TransactionStatus := ts\<rparr>) block authoritys =
   authenticate env b block authoritys"
  by (simp add: authenticate_def Let_def cong: sum.case_cong)

lemma ValidateBlock_status_update:
  assumes "ValidateBlockHeader env b parent = None"
    and "fst (authenticate env b block authoritys) = None"
  shows "ValidateBlock env (b\<lparr>TransactionStatus := ts\<rparr>) parent block authoritys position =
         ValidateBlock env b parent block authoritys position"
proof -
  obtain ev1 where a: "authenticate env b block authoritys = (None, ev1)"
    using assms(2) by (cases "authenticate env b block authoritys") auto
  have h': "ValidateBlockHeader env (b\<lparr>TransactionStatus := ts\<rparr>) parent = None"
    using assms(1) by (simp add: ValidateBlockHeader_status)
  have a': "authenticate env (b\<lparr>TransactionStatus := ts\<rparr>) block authoritys = (None, ev1)"
    using a by (simp add: authenticate_status)
  show ?thesis
    by (simp add: ValidateBlock_after_authentication [OF assms(1) a]
        ValidateBlock_after_authentication [OF h' a'])
qed

lemma txloop_block:
  "\<exists>ts. fst (snd (txloop env n i txs b g a)) = b\<lparr>TransactionStatus := ts\<rparr>"
proof (induction txs arbitrary: i b g a)
  case Nil
  have "b = b\<lparr>TransactionStatus := TransactionStatus b\<rparr>" by simp
  then show ?case by (metis txloop.simps(1) fst_conv snd_conv)
next
  case (Cons tx txs)
  have same: "\<exists>ts. b = b\<lparr>TransactionStatus := ts\<rparr>"
    by (rule exI [of _ "TransactionStatus b"]) simp
  obtain gs err where r: "ValidateTx env tx b = (gs, err)" by (cases "ValidateTx env tx b")
  show ?case
  proof (cases "GasValid gs")
    case False
    with r same show ?thesis by simp
  next
    case True
    show ?thesis
    proof (cases "SetStatus (TransactionStatus b) i (err \<noteq> None) :: 'a error + bool list")
      case (Inl e)
      with r True same show ?thesis by (simp del: not_None_eq)
    next
      case (Inr ts)
      show ?thesis
      proof (cases "MaxBlockGas env < g + GasUsed gs")
        case over: True
        have "\<exists>ts'. b\<lparr>TransactionStatus := ts\<rparr> = b\<lparr>TransactionStatus := ts'\<rparr>" by blast
        with r True Inr over show ?thesis by (simp del: not_None_eq)
      next
        case under: False
        obtain r' b' evs where
          rec: "txloop env n (i + 1) txs (b\<lparr>TransactionStatus := ts\<rparr>) (g + GasUsed gs)
             (a + BTMValue gs) = (r', b', evs)"
          by (metis prod_cases3)
        obtain ts' where "b' = b\<lparr>TransactionStatus := ts\<rparr>\<lparr>TransactionStatus := ts'\<rparr>"
          using Cons.IH [of "i + 1" "b\<lparr>TransactionStatus := ts\<rparr>" "g + GasUsed gs"
              "a + BTMValue gs"] rec
          by auto
        then have "fst (snd (txloop env n i (tx # txs) b g a)) = b\<lparr>TransactionStatus := ts'\<rparr>"
          using r True Inr under rec by (simp del: not_None_eq)
        then show ?thesis by blast
      qed
    qed
  qed
qed

lemma ValidateBlock_block:
  "\<exists>ts. fst (snd (ValidateBlock env b parent block authoritys position)) =
     b\<lparr>TransactionStatus := ts\<rparr>"
proof -
  have same: "\<exists>ts. b = b\<lparr>TransactionStatus := ts\<rparr>"
    by (rule exI [of _ "TransactionStatus b"]) simp
  obtain r b1 ev2 where
    l: "txloop env (length (Transactions b)) 0 (Transactions b)
          (b\<lparr>TransactionStatus := NewTransactionStatus\<rparr>) 0 (BlockSubsidy env (Height b)) =
        (r, b1, ev2)"
    by (metis prod_cases3)
  from txloop_block [of env "length (Transactions b)" 0 "Transactions b"
      "b\<lparr>TransactionStatus := NewTransactionStatus\<rparr>" 0 "BlockSubsidy env (Height b)"] l
  have b1: "\<exists>ts. b1 = b\<lparr>TransactionStatus := ts\<rparr>" by auto
  show ?thesis
    using same b1 l
    by (auto simp: ValidateBlock_def
        split: option.splits prod.splits loop_result.splits go_result.splits)
qed

text \<open>
  C8. \<open>ValidateBlock\<close> is a function of its arguments and of what the collaborators
  answer (the clock reading among them), so two runs on the same inputs agree. Running it
  again on the block the first run has left (with the status that run attached) yields
  the same result, the same block with the same status, and the same calls.
\<close>

theorem ValidateBlock_idempotent:
  "ValidateBlock env (fst (snd (ValidateBlock env b parent block authoritys position)))
     parent block authoritys position =
   ValidateBlock env b parent block authoritys position"
proof (cases "ValidateBlockHeader env b parent")
  case (Some err)
  then show ?thesis by (simp add: ValidateBlock_def)
next
  case None
  show ?thesis
  proof (cases "fst (authenticate env b block authoritys)")
    case (Some err)
    then obtain ev1 where "authenticate env b block authoritys = (Some err, ev1)"
      by (cases "authenticate env b block authoritys") auto
    with None show ?thesis by (simp add: ValidateBlock_def)
  next
    case no_err: None
    obtain ts where "fst (snd (ValidateBlock env b parent block authoritys position)) =
        b\<lparr>TransactionStatus := ts\<rparr>"
      using ValidateBlock_block [of env b parent block authoritys position] by (elim exE)
    then show ?thesis
      by (simp add: ValidateBlock_status_update [OF None no_err])
  qed
qed

theorem ValidateBlock_idempotent_witness:
  "ValidateBlock exEnv
     (fst (snd (ValidateBlock exEnv (exBlock [exCoinbase 50]) exParent exText exAuthoritys 0)))
     exParent exText exAuthoritys 0 =
   ValidateBlock exEnv (exBlock [exCoinbase 50]) exParent exText exAuthoritys 0"
  by (rule ValidateBlock_idempotent)

lemma ValidateBlock_all_pass_results:
  fixes env :: "('e, 'tb) env" and b :: Block and parent :: BlockNode and block :: 'tb
    and authoritys :: "string \<rightharpoonup> string" and position :: u64
  defines "os \<equiv> outcomes env (Transactions b) (b\<lparr>TransactionStatus := []\<rparr>)"
  defines "vb \<equiv> ValidateBlock env b parent block authoritys position"
  assumes "ValidateBlockHeader env b parent = None"
    and "authenticate env b block authoritys = (None, ev1)"
    and "\<forall>j<length (Transactions b).
           GasValid (fst (os ! j)) \<and> gasAfter os (Suc j) \<le> MaxBlockGas env"
  shows "fst (snd vb) = b\<lparr>TransactionStatus := statusOf os\<rparr>"
    and "fst vb = Panic \<or> fst vb = Return None
       \<or> (\<exists>d. fst vb = Return (Some (ErrWrongCoinbaseTransaction d)))
       \<or> (\<exists>h. fst vb = Return (Some (ErrMissingEntry h)))
       \<or> (\<exists>h. fst vb = Return (Some (ErrEntryType h)))
       \<or> (\<exists>d. fst vb = Return (Some (errMismatchedMerkleRoot d)))
       \<or> (\<exists>e. fst vb = Return (Some (Wrapped e ComputingTransactionIdMerkleRoot)))
       \<or> (\<exists>e. fst vb = Return (Some (Wrapped e ComputingTransactionStatusMerkleRoot)))"
proof -
  let ?amt = "BlockSubsidy env (Height b) + feesOf os"
  let ?b1 = "b\<lparr>TransactionStatus := statusOf os\<rparr>"
  note vb = ValidateBlock_all_pass [OF assms(3,4) assms(5) [unfolded os_def], of position,
      folded os_def vb_def]
  obtain r ev3 where m: "merkleChecks env ?b1 = (r, ev3)" by (cases "merkleChecks env ?b1")
  show "fst (snd vb) = ?b1"
    by (simp add: vb m split: go_result.splits option.splits)
  show "fst vb = Panic \<or> fst vb = Return None
       \<or> (\<exists>d. fst vb = Return (Some (ErrWrongCoinbaseTransaction d)))
       \<or> (\<exists>h. fst vb = Return (Some (ErrMissingEntry h)))
       \<or> (\<exists>h. fst vb = Return (Some (ErrEntryType h)))
       \<or> (\<exists>d. fst vb = Return (Some (errMismatchedMerkleRoot d)))
       \<or> (\<exists>e. fst vb = Return (Some (Wrapped e ComputingTransactionIdMerkleRoot)))
       \<or> (\<exists>e. fst vb = Return (Some (Wrapped e ComputingTransactionStatusMerkleRoot)))"
  proof (cases "checkCoinbaseAmount b ?amt :: 'e go_result")
    case Panic
    then show ?thesis by (simp add: vb)
  next
    case (Return ro)
    show ?thesis
    proof (cases ro)
      case (Some err)
      with Return checkCoinbaseAmount_results [of "Return (Some err) :: 'e go_result" b ?amt]
      show ?thesis by (auto simp: vb)
    next
      case None
      with Return m merkleChecks_results [of env ?b1]
      show ?thesis by (auto simp: vb)
    qed
  qed
qed

text \<open>
  C2. \<open>ValidateBlock\<close> returns \<open>errOverBlockLimit\<close> exactly when the header and the
  proposer pass and there is a first index \<open>i\<close> at which \<open>blockGasSum\<close> (the
  \<open>uint64\<close> running total of the gas used) exceeds \<open>MaxBlockGas\<close>, every transaction
  up to \<open>i\<close> being gas-valid. In that run the validator has been called for the indices
  \<open>0..i\<close> and for no other, and neither the coinbase check nor a merkle root has been
  computed: the log ends with the call at index \<open>i\<close>. The block is left with the status
  flags of the indices \<open>0..i\<close>. The running total after \<open>k\<close> transactions is the
  unbounded sum of their gas whenever that sum is below \<open>2^64\<close>.
\<close>

theorem ValidateBlock_over_gas_limit:
  fixes env :: "('e, 'tb) env" and b :: Block and parent :: BlockNode and block :: 'tb
    and authoritys :: "string \<rightharpoonup> string" and position :: u64
  defines "os \<equiv> outcomes env (Transactions b) (b\<lparr>TransactionStatus := []\<rparr>)"
  defines "vb \<equiv> ValidateBlock env b parent block authoritys position"
  shows "(\<forall>i ev1.
            ValidateBlockHeader env b parent = None \<and>
            authenticate env b block authoritys = (None, ev1) \<and>
            i < length (Transactions b) \<and>
            (\<forall>j\<le>i. GasValid (fst (os ! j))) \<and>
            (\<forall>j<i. gasAfter os (Suc j) \<le> MaxBlockGas env) \<and>
            MaxBlockGas env < gasAfter os (Suc i) \<longrightarrow>
            vb = (Return (Some errOverBlockLimit),
                  b\<lparr>TransactionStatus := take (Suc i) (statusOf os)\<rparr>,
                  ev1 @ validatorCalls 0 [] (statusOf os) (Suc i)))
       \<and> (fst vb = Return (Some errOverBlockLimit) \<longleftrightarrow>
            ValidateBlockHeader env b parent = None \<and>
            fst (authenticate env b block authoritys) = None \<and>
            (\<exists>i<length (Transactions b).
               (\<forall>j\<le>i. GasValid (fst (os ! j))) \<and>
               (\<forall>j<i. gasAfter os (Suc j) \<le> MaxBlockGas env) \<and>
               MaxBlockGas env < gasAfter os (Suc i)))
       \<and> (\<forall>k. sum_list (map (\<lambda>r. unat (GasUsed (fst r))) (take k os)) < 2 ^ 64 \<longrightarrow>
              unat (gasAfter os k) = sum_list (map (\<lambda>r. unat (GasUsed (fst r))) (take k os)))"
    (is "?run \<and> (?L \<longleftrightarrow> ?H \<and> ?A \<and> ?X) \<and> ?N")
proof -
  have run: ?run
  proof (intro allI impI)
    fix i ev1
    assume pre: "ValidateBlockHeader env b parent = None \<and>
        authenticate env b block authoritys = (None, ev1) \<and>
        i < length (Transactions b) \<and>
        (\<forall>j\<le>i. GasValid (fst (os ! j))) \<and>
        (\<forall>j<i. gasAfter os (Suc j) \<le> MaxBlockGas env) \<and>
        MaxBlockGas env < gasAfter os (Suc i)"
    then have h: "ValidateBlockHeader env b parent = None"
      and a: "authenticate env b block authoritys = (None, ev1)"
      and i: "i < length (Transactions b)"
      and before: "\<forall>j<i. GasValid (fst (os ! j)) \<and> gasAfter os (Suc j) \<le> MaxBlockGas env"
      and at: "GasValid (fst (os ! i))"
      and over: "MaxBlockGas env < gasAfter os (Suc i)"
      by simp_all
    show "vb = (Return (Some errOverBlockLimit),
        b\<lparr>TransactionStatus := take (Suc i) (statusOf os)\<rparr>,
        ev1 @ validatorCalls 0 [] (statusOf os) (Suc i))"
      using ValidateBlock_over_gas_at [OF h a i before [unfolded os_def] at [unfolded os_def]
          over [unfolded os_def], of position]
      by (simp add: os_def vb_def)
  qed
  have only: "?H \<and> ?A \<and> ?X" if L: ?L
  proof -
    have h: ?H
    proof (rule ccontr)
      assume "\<not> ?H"
      then obtain err where "ValidateBlockHeader env b parent = Some err" by auto
      with L show False
        by (auto simp: vb_def ValidateBlock_def ValidateBlockHeader_def checkBlockTime_def
            split: if_splits)
    qed
    obtain ao ev1 where a': "authenticate env b block authoritys = (ao, ev1)"
      by (cases "authenticate env b block authoritys")
    have a: ?A
    proof (rule ccontr)
      assume "\<not> ?A"
      then obtain err where e: "ao = Some err" using a' by auto
      with L h a' have "err = errOverBlockLimit"
        by (simp add: vb_def ValidateBlock_def)
      with authenticate_errors [OF a' [unfolded e]] show False by auto
    qed
    then have a'': "authenticate env b block authoritys = (None, ev1)" using a' by simp
    have ?X
    proof (rule ValidateBlock_cases [of b env])
      assume p: "\<forall>j<length (Transactions b).
          GasValid (fst (outcomes env (Transactions b) (b\<lparr>TransactionStatus := []\<rparr>) ! j)) \<and>
          gasAfter (outcomes env (Transactions b) (b\<lparr>TransactionStatus := []\<rparr>)) (Suc j)
            \<le> MaxBlockGas env"
      from ValidateBlock_all_pass_results(2) [OF h a'' p, of position, folded vb_def] L
      show ?X by auto
    next
      fix k
      assume "k < length (Transactions b)"
        and "\<forall>j<k. GasValid (fst (outcomes env (Transactions b) (b\<lparr>TransactionStatus := []\<rparr>) ! j)) \<and>
          gasAfter (outcomes env (Transactions b) (b\<lparr>TransactionStatus := []\<rparr>)) (Suc j)
            \<le> MaxBlockGas env"
        and "\<not> GasValid (fst (outcomes env (Transactions b) (b\<lparr>TransactionStatus := []\<rparr>) ! k))"
      from ValidateBlock_invalid_at [OF h a'' this, of position, folded vb_def] L
      show ?X by (auto simp: Wrap_def split: option.splits)
    next
      fix k
      assume k: "k < length (Transactions b)"
        and before: "\<forall>j<k. GasValid (fst (outcomes env (Transactions b) (b\<lparr>TransactionStatus := []\<rparr>) ! j)) \<and>
          gasAfter (outcomes env (Transactions b) (b\<lparr>TransactionStatus := []\<rparr>)) (Suc j)
            \<le> MaxBlockGas env"
        and at: "GasValid (fst (outcomes env (Transactions b) (b\<lparr>TransactionStatus := []\<rparr>) ! k))"
        and over: "MaxBlockGas env
            < gasAfter (outcomes env (Transactions b) (b\<lparr>TransactionStatus := []\<rparr>)) (Suc k)"
      have "\<forall>j\<le>k. GasValid (fst (os ! j))"
        using before at by (auto simp: os_def le_less)
      moreover have "\<forall>j<k. gasAfter os (Suc j) \<le> MaxBlockGas env"
        using before by (simp add: os_def)
      moreover have "MaxBlockGas env < gasAfter os (Suc k)"
        using over by (simp add: os_def)
      ultimately show ?X using k by blast
    qed
    with h a show ?thesis by blast
  qed
  have "if": ?L if "?H \<and> ?A \<and> ?X"
  proof -
    from that obtain ev1 where "authenticate env b block authoritys = (None, ev1)"
      by (cases "authenticate env b block authoritys") auto
    with that run show ?L by fastforce
  qed
  have iff: "?L \<longleftrightarrow> ?H \<and> ?A \<and> ?X"
    using only "if" by blast
  have ?N using gasAfter_unat by blast
  show ?thesis by (rule conjI [OF run conjI [OF iff \<open>?N\<close>]])
qed

theorem ValidateBlock_over_gas_limit_witness:
  "ValidateBlock exEnv (exBlock [exTx 0 0 0 0, exTx 60 0 0 0, exTx 60 0 0 7, exTx 1 0 0 0])
      exParent exText exAuthoritys 0 =
     (Return (Some errOverBlockLimit),
      (exBlock [exTx 0 0 0 0, exTx 60 0 0 0, exTx 60 0 0 7, exTx 1 0 0 0])
        \<lparr>TransactionStatus := [False, False, True]\<rparr>,
      [EvVerify exKey, EvValidateTx 0 [], EvValidateTx 1 [False], EvValidateTx 2 [False, False]])"
proof -
  let ?b = "exBlock [exTx 0 0 0 0, exTx 60 0 0 0, exTx 60 0 0 7, exTx 1 0 0 0]"
  let ?os = "outcomes exEnv (Transactions ?b) (?b\<lparr>TransactionStatus := []\<rparr>)"
  have os: "?os =
     [(\<lparr>BTMValue = 0, GasUsed = 0, GasValid = True\<rparr>, None),
      (\<lparr>BTMValue = 0, GasUsed = 60, GasValid = True\<rparr>, None),
      (\<lparr>BTMValue = 0, GasUsed = 60, GasValid = True\<rparr>, Some 7),
      (\<lparr>BTMValue = 0, GasUsed = 1, GasValid = True\<rparr>, None)]"
    by (simp add: exTransactions exValidateTx_exTx)
  have i: "Suc (Suc 0) < length (Transactions ?b)" by (simp add: exTransactions)
  have valid: "\<forall>j\<le>Suc (Suc 0). GasValid (fst (?os ! j))"
    unfolding os by (simp add: le_Suc_eq)
  have below: "\<forall>j<Suc (Suc 0). gasAfter ?os (Suc j) \<le> MaxBlockGas exEnv"
    unfolding os by (simp add: less_Suc_eq gasAfter_def exEnv_def)
  have over: "MaxBlockGas exEnv < gasAfter ?os (Suc (Suc (Suc 0)))"
    unfolding os by (simp add: gasAfter_def exEnv_def)
  show ?thesis
    using ValidateBlock_over_gas_limit [of exEnv ?b exParent exText exAuthoritys 0,
        THEN conjunct1, rule_format, of "[EvVerify exKey]" "Suc (Suc 0)"]
      exHeader [of "[exTx 0 0 0 0, exTx 60 0 0 0, exTx 60 0 0 7, exTx 1 0 0 0]"]
      exAuthenticate [of "[exTx 0 0 0 0, exTx 60 0 0 0, exTx 60 0 0 7, exTx 1 0 0 0]"]
      i valid below over
    unfolding os
    by (simp add: statusOf_def validatorCalls_def upt_rec)
qed

text \<open>What the loop leaves on the block, by the way it ends.\<close>

lemma ValidateBlock_loop_status:
  fixes env :: "('e, 'tb) env" and b :: Block and parent :: BlockNode and block :: 'tb
    and authoritys :: "string \<rightharpoonup> string" and position :: u64
  defines "os \<equiv> outcomes env (Transactions b) (b\<lparr>TransactionStatus := []\<rparr>)"
  defines "vb \<equiv> ValidateBlock env b parent block authoritys position"
  assumes "ValidateBlockHeader env b parent = None"
    and "authenticate env b block authoritys = (None, ev1)"
  shows "(\<exists>k\<le>length (Transactions b).
            fst (snd vb) = b\<lparr>TransactionStatus := take k (statusOf os)\<rparr>)
       \<and> (\<forall>e k m. fst vb = Return (Some (Wrapped e (ValidateOfTransaction k m))) \<longrightarrow>
            k < length (Transactions b) \<and> \<not> GasValid (fst (os ! k)) \<and>
            snd vb = (b\<lparr>TransactionStatus := take k (statusOf os)\<rparr>,
                      ev1 @ validatorCalls 0 [] (statusOf os) (Suc k)))
       \<and> (fst vb = Return (Some errOverBlockLimit) \<longrightarrow>
            (\<exists>k<length (Transactions b).
               MaxBlockGas env < gasAfter os (Suc k) \<and>
               snd vb = (b\<lparr>TransactionStatus := take (Suc k) (statusOf os)\<rparr>,
                         ev1 @ validatorCalls 0 [] (statusOf os) (Suc k))))
       \<and> fst vb \<noteq> Return (Some SetStatusOneByOne)"
proof (rule ValidateBlock_cases [of b env])
  assume p: "\<forall>j<length (Transactions b).
      GasValid (fst (outcomes env (Transactions b) (b\<lparr>TransactionStatus := []\<rparr>) ! j)) \<and>
      gasAfter (outcomes env (Transactions b) (b\<lparr>TransactionStatus := []\<rparr>)) (Suc j)
        \<le> MaxBlockGas env"
  note res = ValidateBlock_all_pass_results [OF assms(3,4) p, of position, folded os_def vb_def]
  have l: "length (statusOf os) = length (Transactions b)"
    by (simp add: statusOf_length os_def outcomes_length)
  have "fst (snd vb) = b\<lparr>TransactionStatus := take (length (Transactions b)) (statusOf os)\<rparr>"
    using res(1) l by simp
  then have 1: "\<exists>k\<le>length (Transactions b).
      fst (snd vb) = b\<lparr>TransactionStatus := take k (statusOf os)\<rparr>"
    by blast
  from res(2) have 2: "\<forall>e k m. fst vb \<noteq> Return (Some (Wrapped e (ValidateOfTransaction k m)))"
    and 3: "fst vb \<noteq> Return (Some errOverBlockLimit)"
    and 4: "fst vb \<noteq> Return (Some SetStatusOneByOne)"
    by auto
  from 1 2 3 4 show ?thesis by blast
next
  fix k
  assume k: "k < length (Transactions b)"
    and before: "\<forall>j<k. GasValid (fst (outcomes env (Transactions b) (b\<lparr>TransactionStatus := []\<rparr>) ! j)) \<and>
      gasAfter (outcomes env (Transactions b) (b\<lparr>TransactionStatus := []\<rparr>)) (Suc j)
        \<le> MaxBlockGas env"
    and inv: "\<not> GasValid (fst (outcomes env (Transactions b) (b\<lparr>TransactionStatus := []\<rparr>) ! k))"
  note vb = ValidateBlock_invalid_at [OF assms(3,4) k before inv, of position,
      folded os_def vb_def]
  have 1: "\<exists>k\<le>length (Transactions b).
      fst (snd vb) = b\<lparr>TransactionStatus := take k (statusOf os)\<rparr>"
    using k by (intro exI [of _ k]) (simp add: vb)
  show ?thesis
    using 1 k inv by (auto simp: vb Wrap_def os_def split: option.splits)
next
  fix k
  assume k: "k < length (Transactions b)"
    and before: "\<forall>j<k. GasValid (fst (outcomes env (Transactions b) (b\<lparr>TransactionStatus := []\<rparr>) ! j)) \<and>
      gasAfter (outcomes env (Transactions b) (b\<lparr>TransactionStatus := []\<rparr>)) (Suc j)
        \<le> MaxBlockGas env"
    and v: "GasValid (fst (outcomes env (Transactions b) (b\<lparr>TransactionStatus := []\<rparr>) ! k))"
    and over: "MaxBlockGas env
        < gasAfter (outcomes env (Transactions b) (b\<lparr>TransactionStatus := []\<rparr>)) (Suc k)"
  note vb = ValidateBlock_over_gas_at [OF assms(3,4) k before v over, of position,
      folded os_def vb_def]
  have 1: "\<exists>k\<le>length (Transactions b).
      fst (snd vb) = b\<lparr>TransactionStatus := take k (statusOf os)\<rparr>"
    using k by (intro exI [of _ "Suc k"]) (simp add: vb)
  have 3: "\<exists>k<length (Transactions b).
      MaxBlockGas env < gasAfter os (Suc k) \<and>
      snd vb = (b\<lparr>TransactionStatus := take (Suc k) (statusOf os)\<rparr>,
                ev1 @ validatorCalls 0 [] (statusOf os) (Suc k))"
    using k over by (intro exI [of _ k]) (simp add: vb os_def)
  show ?thesis
    using 1 3 by (simp add: vb)
qed

text \<open>
  C10. A block rejected by the header checks or by the proposer check is returned as it
  came. Once both have passed, the status the block arrived with is replaced by an empty
  one before the first transaction is validated, and every flag is appended to that. Hence
  the block always leaves with some prefix of the flags of this run, never with its old
  status. When the loop rejects the block the prefix is partial and stays on the block:
  rejected for an invalid transaction at index \<open>k\<close>, the block carries the flags of the
  indices below \<open>k\<close>; rejected for the gas limit, it carries the flags up to and
  including the index at which the limit was crossed. In both cases the log ends with that
  call of the validator, and the first call has seen the empty status. \<open>SetStatus\<close>
  never fails in this loop.
\<close>

theorem ValidateBlock_status_not_rolled_back:
  fixes env :: "('e, 'tb) env" and b :: Block and parent :: BlockNode and block :: 'tb
    and authoritys :: "string \<rightharpoonup> string" and position :: u64
  defines "os \<equiv> outcomes env (Transactions b) (b\<lparr>TransactionStatus := []\<rparr>)"
  defines "vb \<equiv> ValidateBlock env b parent block authoritys position"
  shows "(\<forall>err. ValidateBlockHeader env b parent = Some err \<longrightarrow>
            vb = (Return (Some err), b, []))
       \<and> (\<forall>err ev1. ValidateBlockHeader env b parent = None \<and>
            authenticate env b block authoritys = (Some err, ev1) \<longrightarrow>
            vb = (Return (Some err), b, ev1))
       \<and> (\<forall>ev1. ValidateBlockHeader env b parent = None \<and>
            authenticate env b block authoritys = (None, ev1) \<longrightarrow>
            (\<exists>k\<le>length (Transactions b).
               fst (snd vb) = b\<lparr>TransactionStatus := take k (statusOf os)\<rparr>)
            \<and> (\<forall>e k m. fst vb = Return (Some (Wrapped e (ValidateOfTransaction k m))) \<longrightarrow>
                 k < length (Transactions b) \<and> \<not> GasValid (fst (os ! k)) \<and>
                 snd vb = (b\<lparr>TransactionStatus := take k (statusOf os)\<rparr>,
                           ev1 @ validatorCalls 0 [] (statusOf os) (Suc k)))
            \<and> (fst vb = Return (Some errOverBlockLimit) \<longrightarrow>
                 (\<exists>k<length (Transactions b).
                    MaxBlockGas env < gasAfter os (Suc k) \<and>
                    snd vb = (b\<lparr>TransactionStatus := take (Suc k) (statusOf os)\<rparr>,
                              ev1 @ validatorCalls 0 [] (statusOf os) (Suc k))))
            \<and> fst vb \<noteq> Return (Some SetStatusOneByOne))"
proof -
  have early: "\<forall>err. ValidateBlockHeader env b parent = Some err \<longrightarrow>
      vb = (Return (Some err), b, [])"
    by (simp add: vb_def ValidateBlock_def)
  have auth: "\<forall>err ev1. ValidateBlockHeader env b parent = None \<and>
      authenticate env b block authoritys = (Some err, ev1) \<longrightarrow>
      vb = (Return (Some err), b, ev1)"
    by (simp add: vb_def ValidateBlock_def)
  have loop: "\<forall>ev1. ValidateBlockHeader env b parent = None \<and>
      authenticate env b block authoritys = (None, ev1) \<longrightarrow>
      (\<exists>k\<le>length (Transactions b).
         fst (snd vb) = b\<lparr>TransactionStatus := take k (statusOf os)\<rparr>)
      \<and> (\<forall>e k m. fst vb = Return (Some (Wrapped e (ValidateOfTransaction k m))) \<longrightarrow>
           k < length (Transactions b) \<and> \<not> GasValid (fst (os ! k)) \<and>
           snd vb = (b\<lparr>TransactionStatus := take k (statusOf os)\<rparr>,
                     ev1 @ validatorCalls 0 [] (statusOf os) (Suc k)))
      \<and> (fst vb = Return (Some errOverBlockLimit) \<longrightarrow>
           (\<exists>k<length (Transactions b).
              MaxBlockGas env < gasAfter os (Suc k) \<and>
              snd vb = (b\<lparr>TransactionStatus := take (Suc k) (statusOf os)\<rparr>,
                        ev1 @ validatorCalls 0 [] (statusOf os) (Suc k))))
      \<and> fst vb \<noteq> Return (Some SetStatusOneByOne)"
  proof (rule allI, rule impI)
    fix ev1
    assume pre: "ValidateBlockHeader env b parent = None \<and>
        authenticate env b block authoritys = (None, ev1)"
    then have h: "ValidateBlockHeader env b parent = None"
      and a: "authenticate env b block authoritys = (None, ev1)"
      by simp_all
    from ValidateBlock_loop_status [OF h a, of position, folded os_def vb_def]
    show "(\<exists>k\<le>length (Transactions b).
         fst (snd vb) = b\<lparr>TransactionStatus := take k (statusOf os)\<rparr>)
      \<and> (\<forall>e k m. fst vb = Return (Some (Wrapped e (ValidateOfTransaction k m))) \<longrightarrow>
           k < length (Transactions b) \<and> \<not> GasValid (fst (os ! k)) \<and>
           snd vb = (b\<lparr>TransactionStatus := take k (statusOf os)\<rparr>,
                     ev1 @ validatorCalls 0 [] (statusOf os) (Suc k)))
      \<and> (fst vb = Return (Some errOverBlockLimit) \<longrightarrow>
           (\<exists>k<length (Transactions b).
              MaxBlockGas env < gasAfter os (Suc k) \<and>
              snd vb = (b\<lparr>TransactionStatus := take (Suc k) (statusOf os)\<rparr>,
                        ev1 @ validatorCalls 0 [] (statusOf os) (Suc k))))
      \<and> fst vb \<noteq> Return (Some SetStatusOneByOne)" .
  qed
  show ?thesis by (rule conjI [OF early conjI [OF auth loop]])
qed

theorem ValidateBlock_status_not_rolled_back_witness:
  "TransactionStatus (exBlock [exCoinbase 50, exTx 60 0 0 0, exTx 60 0 1 7, exTx 1 0 0 0]) =
     [True, True, True, True, True]
   \<and> ValidateBlock exEnv ((exBlock [])\<lparr>Version := 0\<rparr>) exParent exText exAuthoritys 0 =
     (Return (Some (errVersionRegression 1 0)), (exBlock [])\<lparr>Version := 0\<rparr>, [])
   \<and> ValidateBlock exEnv (exBlock [exCoinbase 50, exTx 60 0 0 0, exTx 60 0 1 7, exTx 1 0 0 0])
       exParent exText exAuthoritys 0 =
     (Return (Some (Wrapped 7 (ValidateOfTransaction 2 4))),
      (exBlock [exCoinbase 50, exTx 60 0 0 0, exTx 60 0 1 7, exTx 1 0 0 0])
        \<lparr>TransactionStatus := [False, False]\<rparr>,
      [EvVerify exKey, EvValidateTx 0 [], EvValidateTx 1 [False], EvValidateTx 2 [False, False]])"
proof -
  let ?b = "exBlock [exCoinbase 50, exTx 60 0 0 0, exTx 60 0 1 7, exTx 1 0 0 0]"
  let ?vb = "ValidateBlock exEnv ?b exParent exText exAuthoritys 0"
  have gas: "MaxBlockGas exEnv = 100" by (simp add: exEnv_def)
  have r: "fst ?vb = Return (Some (Wrapped 7 (ValidateOfTransaction 2 4)))"
    by (simp add: ValidateBlock_after_authentication [OF exHeader exAuthenticate] exTransactions
        exValidateTx_exCoinbase exValidateTx_exTx SetStatus_def gas Wrap_def)
  have old: "TransactionStatus ?b = [True, True, True, True, True]"
    by (simp add: exBlock_def)
  from ValidateBlock_status_not_rolled_back [of exEnv ?b exParent exText exAuthoritys 0]
    exHeader [of "[exCoinbase 50, exTx 60 0 0 0, exTx 60 0 1 7, exTx 1 0 0 0]"]
    exAuthenticate [of "[exCoinbase 50, exTx 60 0 0 0, exTx 60 0 1 7, exTx 1 0 0 0]"] r
  have "snd ?vb =
      (?b\<lparr>TransactionStatus := take 2 (statusOf (outcomes exEnv (Transactions ?b)
             (?b\<lparr>TransactionStatus := []\<rparr>)))\<rparr>,
       [EvVerify exKey] @ validatorCalls 0 []
          (statusOf (outcomes exEnv (Transactions ?b) (?b\<lparr>TransactionStatus := []\<rparr>))) (Suc 2))"
    by blast
  then have "snd ?vb =
      (?b\<lparr>TransactionStatus := [False, False]\<rparr>,
       [EvVerify exKey, EvValidateTx 0 [], EvValidateTx 1 [False], EvValidateTx 2 [False, False]])"
    by (simp add: exTransactions exValidateTx_exCoinbase exValidateTx_exTx statusOf_def
        validatorCalls_def upt_rec)
  then have loop: "?vb =
      (Return (Some (Wrapped 7 (ValidateOfTransaction 2 4))),
       ?b\<lparr>TransactionStatus := [False, False]\<rparr>,
       [EvVerify exKey, EvValidateTx 0 [], EvValidateTx 1 [False], EvValidateTx 2 [False, False]])"
    using r by (simp add: prod_eq_iff)
  have "ValidateBlockHeader exEnv ((exBlock [])\<lparr>Version := 0\<rparr>) exParent =
      (Some (errVersionRegression 1 0) :: nat error option)"
    by (simp add: ValidateBlockHeader_def exBlock_def exParent_def)
  with ValidateBlock_status_not_rolled_back
    [of exEnv "(exBlock [])\<lparr>Version := 0\<rparr>" exParent exText exAuthoritys 0]
  have early: "ValidateBlock exEnv ((exBlock [])\<lparr>Version := 0\<rparr>) exParent exText exAuthoritys 0 =
      (Return (Some (errVersionRegression 1 0)), (exBlock [])\<lparr>Version := 0\<rparr>, [])"
    by blast
  from old early loop show ?thesis by simp
qed

section \<open>When a block is accepted\<close>

text \<open>
  When \<open>ValidateBlock\<close> returns \<open>nil\<close>: every stage passes, or the first transaction
  that is not gas-valid comes without an error.
\<close>

lemma ValidateBlock_nil:
  fixes env :: "('e, 'tb) env" and b :: Block and parent :: BlockNode and block :: 'tb
    and authoritys :: "string \<rightharpoonup> string" and position :: u64
  defines "os \<equiv> outcomes env (Transactions b) (b\<lparr>TransactionStatus := []\<rparr>)"
  defines "vb \<equiv> ValidateBlock env b parent block authoritys position"
  shows "fst vb = Return None \<longleftrightarrow>
     ValidateBlockHeader env b parent = None \<and>
     fst (authenticate env b block authoritys) = None \<and>
     ((\<forall>j<length (Transactions b).
         GasValid (fst (os ! j)) \<and> gasAfter os (Suc j) \<le> MaxBlockGas env) \<and>
      checkCoinbaseAmount b (BlockSubsidy env (Height b) + feesOf os) =
        (Return None :: 'e go_result) \<and>
      TxMerkleRoot env (Transactions b) = Inr (TransactionsRoot b) \<and>
      TxStatusMerkleRoot env (statusOf os) = Inr (TransactionStatusHash b)
      \<or>
      (\<exists>k<length (Transactions b).
         (\<forall>j<k. GasValid (fst (os ! j)) \<and> gasAfter os (Suc j) \<le> MaxBlockGas env) \<and>
         \<not> GasValid (fst (os ! k)) \<and> snd (os ! k) = None))"
    (is "?L \<longleftrightarrow> ?H \<and> ?A \<and> (?P \<and> ?C \<and> ?M1 \<and> ?M2 \<or> ?B)")
proof (cases "ValidateBlockHeader env b parent")
  case (Some err)
  then show ?thesis by (simp add: vb_def ValidateBlock_def)
next
  case h: None
  obtain ao ev1 where a': "authenticate env b block authoritys = (ao, ev1)"
    by (cases "authenticate env b block authoritys")
  show ?thesis
  proof (cases ao)
    case (Some err)
    with h a' show ?thesis by (simp add: vb_def ValidateBlock_def)
  next
    case None
    with a' have a: "authenticate env b block authoritys = (None, ev1)" by simp
    then have A: ?A by simp
    have pass_case: "(L \<longleftrightarrow> H \<and> A' \<and> (P \<and> C \<and> M1 \<and> M2 \<or> B))"
      if "H" "A'" "P" "\<not> B" "L \<longleftrightarrow> C \<and> M1 \<and> M2" for L H A' P C M1 M2 B
      using that by blast
    have invalid_case: "(L \<longleftrightarrow> H \<and> A' \<and> (P \<and> C \<and> M1 \<and> M2 \<or> B))"
      if "H" "A'" "\<not> P" "B \<longleftrightarrow> X" "L \<longleftrightarrow> X" for L H A' P C M1 M2 B X
      using that by blast
    have over_case: "(L \<longleftrightarrow> H \<and> A' \<and> (P \<and> C \<and> M1 \<and> M2 \<or> B))"
      if "H" "A'" "\<not> P" "\<not> B" "\<not> L" for L H A' P C M1 M2 B
      using that by blast
    show ?thesis
    proof (rule ValidateBlock_cases [of b env])
      assume p: "\<forall>j<length (Transactions b).
          GasValid (fst (outcomes env (Transactions b) (b\<lparr>TransactionStatus := []\<rparr>) ! j)) \<and>
          gasAfter (outcomes env (Transactions b) (b\<lparr>TransactionStatus := []\<rparr>)) (Suc j)
            \<le> MaxBlockGas env"
      then have P: ?P by (simp add: os_def)
      then have nB: "\<not> ?B" by auto
      note vb = ValidateBlock_all_pass [OF h a p, of position, folded os_def vb_def]
      have "?L \<longleftrightarrow> ?C \<and> ?M1 \<and> ?M2"
      proof (cases "checkCoinbaseAmount b (BlockSubsidy env (Height b) + feesOf os) :: 'e go_result")
        case Panic
        then show ?thesis by (simp add: vb)
      next
        case (Return ro)
        show ?thesis
        proof (cases ro)
          case (Some err)
          with Return show ?thesis by (simp add: vb)
        next
          case None
          obtain r ev3 where m: "merkleChecks env (b\<lparr>TransactionStatus := statusOf os\<rparr>) = (r, ev3)"
            by (cases "merkleChecks env (b\<lparr>TransactionStatus := statusOf os\<rparr>)")
          with None Return merkleChecks_None [of env "b\<lparr>TransactionStatus := statusOf os\<rparr>"]
          show ?thesis by (simp add: vb)
        qed
      qed
      then show ?thesis
        by (rule pass_case [OF h A P nB])
    next
      fix k
      assume k: "k < length (Transactions b)"
        and before: "\<forall>j<k. GasValid (fst (outcomes env (Transactions b) (b\<lparr>TransactionStatus := []\<rparr>) ! j)) \<and>
          gasAfter (outcomes env (Transactions b) (b\<lparr>TransactionStatus := []\<rparr>)) (Suc j)
            \<le> MaxBlockGas env"
        and inv: "\<not> GasValid (fst (outcomes env (Transactions b) (b\<lparr>TransactionStatus := []\<rparr>) ! k))"
      note vb = ValidateBlock_invalid_at [OF h a k before inv, of position, folded os_def vb_def]
      have nP: "\<not> ?P" using k inv by (auto simp: os_def)
      have "?B \<longleftrightarrow> snd (os ! k) = None"
      proof
        assume ?B
        then obtain k' where k': "k' < length (Transactions b)"
          "\<forall>j<k'. GasValid (fst (os ! j)) \<and> gasAfter os (Suc j) \<le> MaxBlockGas env"
          "\<not> GasValid (fst (os ! k'))" "snd (os ! k') = None"
          by blast
        have "k' = k"
        proof (rule ccontr)
          assume "k' \<noteq> k"
          then consider "k' < k" | "k < k'" by linarith
          then show False
          proof cases
            case 1
            with before k'(3) show ?thesis by (simp add: os_def)
          next
            case 2
            with k'(2) inv show ?thesis by (simp add: os_def)
          qed
        qed
        with k'(4) show "snd (os ! k) = None" by simp
      next
        assume "snd (os ! k) = None"
        with k before inv show ?B by (auto simp: os_def)
      qed
      moreover have "?L \<longleftrightarrow> snd (os ! k) = None"
        by (simp add: vb Wrap_def split: option.splits)
      ultimately show ?thesis
        by (rule invalid_case [OF h A nP])
    next
      fix k
      assume k: "k < length (Transactions b)"
        and before: "\<forall>j<k. GasValid (fst (outcomes env (Transactions b) (b\<lparr>TransactionStatus := []\<rparr>) ! j)) \<and>
          gasAfter (outcomes env (Transactions b) (b\<lparr>TransactionStatus := []\<rparr>)) (Suc j)
            \<le> MaxBlockGas env"
        and at: "GasValid (fst (outcomes env (Transactions b) (b\<lparr>TransactionStatus := []\<rparr>) ! k))"
        and over: "MaxBlockGas env
            < gasAfter (outcomes env (Transactions b) (b\<lparr>TransactionStatus := []\<rparr>)) (Suc k)"
      note vb = ValidateBlock_over_gas_at [OF h a k before at over, of position,
          folded os_def vb_def]
      have nP: "\<not> ?P" using k over by (auto simp: os_def not_le)
      have nB: "\<not> ?B"
      proof
        assume ?B
        then obtain k' where k': "k' < length (Transactions b)"
          "\<forall>j<k'. GasValid (fst (os ! j)) \<and> gasAfter os (Suc j) \<le> MaxBlockGas env"
          "\<not> GasValid (fst (os ! k'))"
          by blast
        consider "k' < k" | "k' = k" | "k < k'" by linarith
        then show False
        proof cases
          case 1
          with before k'(3) show ?thesis by (simp add: os_def)
        next
          case 2
          with at k'(3) show ?thesis by (simp add: os_def)
        next
          case 3
          with k'(2) over show ?thesis by (auto simp: os_def not_le [symmetric])
        qed
      qed
      have "\<not> ?L" by (simp add: vb)
      then show ?thesis
        by (rule over_case [OF h A nP nB])
    qed
  qed
qed

section \<open>Where the code departs from the specification\<close>

lemma authenticate_decode_error:
  assumes "DecodeString (mapIndex authoritys (ControlProgram (GetProof b))) = Inl e"
  shows "authenticate env b block authoritys = (Some e, [])"
    and "e = ErrLength \<or> (\<exists>c. e = InvalidByteError c)"
  using assms DecodeString_errors [OF assms] by (simp_all add: authenticate_def)

lemma authenticate_absent_key:
  assumes "authoritys (ControlProgram (GetProof b)) = None"
  shows "authenticate env b block authoritys =
     (if Verify env (replicate 64 0) (MarshalText env block) (Sign (GetProof b))
      then None else Some VerificationSignatureFailed,
      [EvVerify (replicate 64 0)])"
  using assms by (simp add: authenticate_def mapIndex_def copyXPub_def)

text \<open>
  C1 (the code departs from it). A control program that the registry does not hold is
  looked up as the empty string, which \<open>hex.DecodeString\<close> decodes without an error to
  no bytes; the key stays the all-zero key and the signature check runs with it. With a
  signature primitive that rejects the zero key the block fails with "Verification
  signature failed", not with a decoding error; with one for which the zero key verifies
  the block is accepted although the registry is empty.
\<close>

theorem ValidateBlock_absent_authority_reaches_Verify:
  "ValidateBlock exEnv (exBlock [exCoinbase 50]) exParent exText Map.empty 0 =
     (Return (Some VerificationSignatureFailed), exBlock [exCoinbase 50],
      [EvVerify (replicate 64 0)])
   \<and> ValidateBlock (exEnv\<lparr>Verify := (\<lambda>xpub msg sign. xpub = replicate 64 0)\<rparr>)
       (exBlock [exCoinbase 50]) exParent exText Map.empty 0 =
     (Return None, (exBlock [exCoinbase 50])\<lparr>TransactionStatus := [False]\<rparr>,
      [EvVerify (replicate 64 0), EvValidateTx 0 [], EvCheckCoinbase 50, EvTxMerkleRoot,
       EvTxStatusMerkleRoot [False]])"
proof -
  let ?b = "exBlock [exCoinbase 50]"
  let ?env = "exEnv\<lparr>Verify := (\<lambda>xpub msg sign. xpub = replicate 64 0)\<rparr>"
  have k: "exKey \<noteq> replicate 64 0"
  proof
    assume "exKey = replicate 64 0"
    then have "hd exKey = hd (replicate 64 0 :: byte list)" by (rule arg_cong)
    then show False by (simp add: exKey_def)
  qed
  have a1: "authenticate exEnv ?b exText Map.empty =
      (Some VerificationSignatureFailed, [EvVerify (replicate 64 0)])"
    using k by (simp add: authenticate_absent_key exEnv_def)
  have a2: "authenticate ?env ?b exText Map.empty = (None, [EvVerify (replicate 64 0)])"
    by (simp add: authenticate_absent_key)
  have h2: "ValidateBlockHeader ?env ?b exParent = None"
    by (simp add: ValidateBlockHeader_def checkBlockTime_def exEnv_def exBlock_def exParent_def)
  have gas: "MaxBlockGas exEnv = 100" and sub: "BlockSubsidy exEnv h = 50" for h
    by (simp_all add: exEnv_def)
  have 1: "ValidateBlock exEnv ?b exParent exText Map.empty 0 =
      (Return (Some VerificationSignatureFailed), ?b, [EvVerify (replicate 64 0)])"
    by (simp add: ValidateBlock_def exHeader a1)
  have 2: "ValidateBlock ?env ?b exParent exText Map.empty 0 =
      (Return None, ?b\<lparr>TransactionStatus := [False]\<rparr>,
       [EvVerify (replicate 64 0), EvValidateTx 0 [], EvCheckCoinbase 50, EvTxMerkleRoot,
        EvTxStatusMerkleRoot [False]])"
    by (simp add: ValidateBlock_after_authentication [OF h2 a2] exTransactions
        exValidateTx_exCoinbase SetStatus_def gas sub exCheckCoinbase [of _ 50 "[]"]
        merkleChecks_def)
      (simp add: exEnv_def exBlock_def)
  from 1 2 show ?thesis by simp
qed

text \<open>
  C4 (the code departs from it). \<open>errors.Wrapf\<close> of a \<open>nil\<close> error is \<open>nil\<close>: when
  the validator reports a transaction as not gas-valid and gives no error, line 101
  returns \<open>nil\<close> and \<open>ValidateBlock\<close> accepts the block on the spot, without the
  coinbase check and without the merkle roots. The block below pays a coinbase of 0
  instead of 50; it is accepted when its second transaction is invalid without an error,
  and rejected with the wrapped error when the validator gives one.
\<close>

theorem ValidateBlock_invalid_without_error_returns_nil:
  "ValidateBlock exEnv (exBlock [exCoinbase 0, exTx 0 0 1 0]) exParent exText exAuthoritys 0 =
     (Return None, (exBlock [exCoinbase 0, exTx 0 0 1 0])\<lparr>TransactionStatus := [False]\<rparr>,
      [EvVerify exKey, EvValidateTx 0 [], EvValidateTx 1 [False]])
   \<and> ValidateBlock exEnv (exBlock [exCoinbase 0, exTx 0 0 1 7]) exParent exText exAuthoritys 0 =
     (Return (Some (Wrapped 7 (ValidateOfTransaction 1 2))),
      (exBlock [exCoinbase 0, exTx 0 0 1 7])\<lparr>TransactionStatus := [False]\<rparr>,
      [EvVerify exKey, EvValidateTx 0 [], EvValidateTx 1 [False]])"
proof -
  have gas: "MaxBlockGas exEnv = 100" by (simp add: exEnv_def)
  show ?thesis
    by (simp add: ValidateBlock_after_authentication [OF exHeader exAuthenticate] exTransactions
        exValidateTx_exCoinbase exValidateTx_exTx SetStatus_def gas Wrap_def)
qed

end
